theory Spec2Isabelle
  imports Main "HOL-Library.Word" "HOL-Library.Sublist"
begin

unbundle bit_operations_syntax

section \<open>Shared enumerations and constants\<close>

text \<open>
  The packet-data core (\<^verbatim>\<open>src/gprs.c\<close>) and the AT dialect layer
  (\<^verbatim>\<open>drivers/atmodem/gprs.c\<close>) of oFono, embedded function by function.
  C structs are records, enums are datatypes, \<^verbatim>\<open>NULL\<close> is \<open>None\<close>, a function
  pointer of an operation table is a \<open>bool\<close> saying whether the entry is present, and
  every D-Bus signal or driver call a function makes is appended to a trace kept in the
  state it returns. Record fields carry a short prefix where two C structs use the same
  member name.
\<close>

datatype ofono_gprs_context_type =
    OFONO_GPRS_CONTEXT_TYPE_ANY
  | OFONO_GPRS_CONTEXT_TYPE_INTERNET
  | OFONO_GPRS_CONTEXT_TYPE_MMS
  | OFONO_GPRS_CONTEXT_TYPE_WAP
  | OFONO_GPRS_CONTEXT_TYPE_IMS
  | OFONO_GPRS_CONTEXT_TYPE_SUPL
  | OFONO_GPRS_CONTEXT_TYPE_IA

datatype ofono_gprs_proto =
    OFONO_GPRS_PROTO_IP
  | OFONO_GPRS_PROTO_IPV6
  | OFONO_GPRS_PROTO_IPV4V6

datatype ofono_gprs_auth_method =
    OFONO_GPRS_AUTH_METHOD_CHAP
  | OFONO_GPRS_AUTH_METHOD_PAP
  | OFONO_GPRS_AUTH_METHOD_NONE

datatype ofono_error_type =
    OFONO_ERROR_TYPE_NO_ERROR
  | OFONO_ERROR_TYPE_CME
  | OFONO_ERROR_TYPE_CMS
  | OFONO_ERROR_TYPE_FAILURE

datatype gprs_suspend_cause =
    GPRS_SUSPENDED_DETACHED
  | GPRS_SUSPENDED_SIGNALLING
  | GPRS_SUSPENDED_CALL
  | GPRS_SUSPENDED_NO_COVERAGE
  | GPRS_SUSPENDED_UNKNOWN_CAUSE

text \<open>
  Modelled from the spec: the enumerations of \<^verbatim>\<open>common.h\<close>, which is not among the
  sources. The specification names the registration statuses (unknown, not-registered,
  registered, searching, denied, roaming, sms-eutran, roaming-sms-eutran) and the bearers
  (none, gprs, edge, umts, hsdpa, hsupa, hspa, lte); the numbers are those of 3GPP TS
  27.007, which the comments of \<^verbatim>\<open>huawei_mode_notify\<close> repeat for the bearers. The two
  files use them as plain \<^verbatim>\<open>int\<close>s, and so does the model.
\<close>

definition NETWORK_REGISTRATION_STATUS_NOT_REGISTERED :: int where
  "NETWORK_REGISTRATION_STATUS_NOT_REGISTERED = 0"

definition NETWORK_REGISTRATION_STATUS_REGISTERED :: int where
  "NETWORK_REGISTRATION_STATUS_REGISTERED = 1"

definition NETWORK_REGISTRATION_STATUS_SEARCHING :: int where
  "NETWORK_REGISTRATION_STATUS_SEARCHING = 2"

definition NETWORK_REGISTRATION_STATUS_DENIED :: int where
  "NETWORK_REGISTRATION_STATUS_DENIED = 3"

definition NETWORK_REGISTRATION_STATUS_UNKNOWN :: int where
  "NETWORK_REGISTRATION_STATUS_UNKNOWN = 4"

definition NETWORK_REGISTRATION_STATUS_ROAMING :: int where
  "NETWORK_REGISTRATION_STATUS_ROAMING = 5"

definition NETWORK_REGISTRATION_STATUS_REGISTERED_SMS_EUTRAN :: int where
  "NETWORK_REGISTRATION_STATUS_REGISTERED_SMS_EUTRAN = 6"

definition NETWORK_REGISTRATION_STATUS_ROAMING_SMS_EUTRAN :: int where
  "NETWORK_REGISTRATION_STATUS_ROAMING_SMS_EUTRAN = 7"

definition ACCESS_TECHNOLOGY_EUTRAN :: int where
  "ACCESS_TECHNOLOGY_EUTRAN = 7"

definition PACKET_BEARER_NONE :: int where "PACKET_BEARER_NONE = 0"
definition PACKET_BEARER_GPRS :: int where "PACKET_BEARER_GPRS = 1"
definition PACKET_BEARER_EGPRS :: int where "PACKET_BEARER_EGPRS = 2"
definition PACKET_BEARER_UMTS :: int where "PACKET_BEARER_UMTS = 3"
definition PACKET_BEARER_HSUPA :: int where "PACKET_BEARER_HSUPA = 4"
definition PACKET_BEARER_HSDPA :: int where "PACKET_BEARER_HSDPA = 5"
definition PACKET_BEARER_HSUPA_HSDPA :: int where "PACKET_BEARER_HSUPA_HSDPA = 6"
definition PACKET_BEARER_EPS :: int where "PACKET_BEARER_EPS = 7"

definition GPRS_FLAG_ATTACHING :: "32 word" where "GPRS_FLAG_ATTACHING = 0x1"
definition GPRS_FLAG_RECHECK :: "32 word" where "GPRS_FLAG_RECHECK = 0x2"
definition GPRS_FLAG_ATTACHED_UPDATE :: "32 word" where "GPRS_FLAG_ATTACHED_UPDATE = 0x4"

text \<open>The limits \<^verbatim>\<open>src/gprs.c\<close> defines itself.\<close>

definition MAX_CONTEXT_NAME_LENGTH :: nat where "MAX_CONTEXT_NAME_LENGTH = 127"
definition MAX_MESSAGE_PROXY_LENGTH :: nat where "MAX_MESSAGE_PROXY_LENGTH = 255"
definition MAX_MESSAGE_CENTER_LENGTH :: nat where "MAX_MESSAGE_CENTER_LENGTH = 255"
definition MAX_CONTEXTS :: nat where "MAX_CONTEXTS = 256"
text \<open>Modelled from the spec: the limits of \<^verbatim>\<open>gprs-context.h\<close>, which is not among
  the sources; the specification bounds the APN by 100 characters and user name and
  password by 63.\<close>

definition OFONO_GPRS_MAX_APN_LENGTH :: nat where "OFONO_GPRS_MAX_APN_LENGTH = 100"
definition OFONO_GPRS_MAX_USERNAME_LENGTH :: nat where "OFONO_GPRS_MAX_USERNAME_LENGTH = 63"
definition OFONO_GPRS_MAX_PASSWORD_LENGTH :: nat where "OFONO_GPRS_MAX_PASSWORD_LENGTH = 63"

section \<open>Context types as strings\<close>

fun packet_bearer_to_string :: "int \<Rightarrow> string" where
  "packet_bearer_to_string bearer =
     (if bearer = PACKET_BEARER_NONE then ''none''
      else if bearer = PACKET_BEARER_GPRS then ''gprs''
      else if bearer = PACKET_BEARER_EGPRS then ''edge''
      else if bearer = PACKET_BEARER_UMTS then ''umts''
      else if bearer = PACKET_BEARER_HSUPA then ''hsupa''
      else if bearer = PACKET_BEARER_HSDPA then ''hsdpa''
      else if bearer = PACKET_BEARER_HSUPA_HSDPA then ''hspa''
      else if bearer = PACKET_BEARER_EPS then ''lte''
      else '''')"

fun gprs_context_default_name :: "ofono_gprs_context_type \<Rightarrow> string option" where
  "gprs_context_default_name OFONO_GPRS_CONTEXT_TYPE_ANY = None"
| "gprs_context_default_name OFONO_GPRS_CONTEXT_TYPE_INTERNET = Some ''Internet''"
| "gprs_context_default_name OFONO_GPRS_CONTEXT_TYPE_MMS = Some ''MMS''"
| "gprs_context_default_name OFONO_GPRS_CONTEXT_TYPE_WAP = Some ''WAP''"
| "gprs_context_default_name OFONO_GPRS_CONTEXT_TYPE_IMS = Some ''IMS''"
| "gprs_context_default_name OFONO_GPRS_CONTEXT_TYPE_SUPL = Some ''SUPL''"
| "gprs_context_default_name OFONO_GPRS_CONTEXT_TYPE_IA = Some ''Initial Attach''"

fun gprs_context_type_to_string :: "ofono_gprs_context_type \<Rightarrow> string option" where
  "gprs_context_type_to_string OFONO_GPRS_CONTEXT_TYPE_ANY = None"
| "gprs_context_type_to_string OFONO_GPRS_CONTEXT_TYPE_INTERNET = Some ''internet''"
| "gprs_context_type_to_string OFONO_GPRS_CONTEXT_TYPE_MMS = Some ''mms''"
| "gprs_context_type_to_string OFONO_GPRS_CONTEXT_TYPE_WAP = Some ''wap''"
| "gprs_context_type_to_string OFONO_GPRS_CONTEXT_TYPE_IMS = Some ''ims''"
| "gprs_context_type_to_string OFONO_GPRS_CONTEXT_TYPE_SUPL = Some ''supl''"
| "gprs_context_type_to_string OFONO_GPRS_CONTEXT_TYPE_IA = Some ''ia''"

definition gprs_context_string_to_type :: "string \<Rightarrow> ofono_gprs_context_type option" where
  "gprs_context_string_to_type str =
     (if str = ''internet'' then Some OFONO_GPRS_CONTEXT_TYPE_INTERNET
      else if str = ''wap'' then Some OFONO_GPRS_CONTEXT_TYPE_WAP
      else if str = ''mms'' then Some OFONO_GPRS_CONTEXT_TYPE_MMS
      else if str = ''ims'' then Some OFONO_GPRS_CONTEXT_TYPE_IMS
      else if str = ''supl'' then Some OFONO_GPRS_CONTEXT_TYPE_SUPL
      else None)"

section \<open>The AT dialect layer\<close>

text \<open>
  An unsolicited result line as the \<^verbatim>\<open>GAtResultIter\<close> calls of the handlers see it:
  the prefix of the line and its remaining fields.
  \<^verbatim>\<open>g_at_result_iter_next_number\<close> succeeds exactly on a numeric field and, when it
  fails, does not write through its output pointer.
\<close>

datatype at_field = AT_Num int | AT_Str string

type_synonym GAtResult = "string \<times> at_field list"

definition g_at_result_iter_next :: "string \<Rightarrow> GAtResult \<Rightarrow> at_field list option" where
  "g_at_result_iter_next pfx r = (if fst r = pfx then Some (snd r) else None)"

fun g_at_result_iter_next_number :: "at_field list \<Rightarrow> (int \<times> at_field list) option" where
  "g_at_result_iter_next_number (AT_Num n # rest) = Some (n, rest)"
| "g_at_result_iter_next_number _ = None"

fun g_at_result_iter_next_unquoted_string :: "at_field list \<Rightarrow> (string \<times> at_field list) option" where
  "g_at_result_iter_next_unquoted_string (AT_Str s # rest) = Some (s, rest)"
| "g_at_result_iter_next_unquoted_string _ = None"

datatype ofono_vendor =
    OFONO_VENDOR_GENERIC
  | OFONO_VENDOR_GOBI
  | OFONO_VENDOR_NOVATEL
  | OFONO_VENDOR_HUAWEI
  | OFONO_VENDOR_UBLOX
  | OFONO_VENDOR_TELIT
  | OFONO_VENDOR_SIMCOM_A76XX
  | OFONO_VENDOR_IFX
  | OFONO_VENDOR_MBM
  | OFONO_VENDOR_NOKIA

record gprs_data =
  vendor :: ofono_vendor
  last_auto_context_id :: int
  telit_try_reattach :: bool
  gd_attached :: int

text \<open>What a handler of the dialect layer does to the outside: a command written to the
  modem, or a call into the core.\<close>

datatype at_action =
    Chat_send string
  | Core_status_notify int
  | Core_detached_notify
  | Core_bearer_notify int
  | Core_suspend_notify gprs_suspend_cause
  | Core_resume_notify

text \<open>
  \<^verbatim>\<open>cgreg_notify\<close>. Its first argument is what \<^verbatim>\<open>at_util_parse_reg_unsolicited\<close>
  (\<^verbatim>\<open>atutil.c\<close>) returned: \<open>None\<close> for \<^verbatim>\<open>FALSE\<close>, else the parsed status.
\<close>

definition cgreg_notify :: "int option \<Rightarrow> gprs_data \<Rightarrow> gprs_data \<times> at_action list" where
  "cgreg_notify parsed gd =
     (case parsed of
        None \<Rightarrow> (gd, [])
      | Some status \<Rightarrow>
          if vendor gd = OFONO_VENDOR_TELIT then
            (if gd_attached gd \<noteq> 0 \<and> status = 0 \<and> \<not> telit_try_reattach gd
             then (gd\<lparr>telit_try_reattach := True\<rparr>, [Chat_send ''AT+CGATT=1''])
             else (gd\<lparr>telit_try_reattach := False\<rparr>, [Core_status_notify status]))
          else (gd, [Core_status_notify status]))"

text \<open>
  \<^verbatim>\<open>cgev_notify\<close>. The two \<^verbatim>\<open>sscanf(event, "%*s %*s %*s %u", ...)\<close> calls read
  the fourth word of the event, words being separated by white space, as a number;
  \<open>sscanf_cid\<close> is that read, and \<open>context_id0\<close> is the content of the
  uninitialised local \<^verbatim>\<open>context_id\<close> that the second call leaves in place when it
  fails. The conversion \<^verbatim>\<open>%u\<close> takes an optional sign and at least one digit; the C
  library converts them as \<^verbatim>\<open>strtoul\<close> does, to a 64-bit \<^verbatim>\<open>unsigned long\<close>
  (the largest one on overflow, negated for a minus sign), and stores the low 32 bits,
  which both callers read back as an \<^verbatim>\<open>int\<close>.
\<close>

definition is_digit :: "char \<Rightarrow> bool" where
  "is_digit c = (48 \<le> (of_char c :: nat) \<and> (of_char c :: nat) \<le> 57)"

definition digits_value :: "string \<Rightarrow> int" where
  "digits_value ds = foldl (\<lambda>a c. 10 * a + (int (of_char c) - 48)) 0 ds"

definition is_space :: "char \<Rightarrow> bool" where
  "is_space c = ((of_char c :: nat) = 32 \<or> (9 \<le> (of_char c :: nat) \<and> (of_char c :: nat) \<le> 13))"

fun split_words :: "string \<Rightarrow> string \<Rightarrow> string list" where
  "split_words acc [] = (if acc = [] then [] else [acc])"
| "split_words acc (c # cs) =
     (if is_space c then (if acc = [] then split_words [] cs else acc # split_words [] cs)
      else split_words (acc @ [c]) cs)"

definition strtoul :: "bool \<Rightarrow> int \<Rightarrow> int" where
  "strtoul neg v =
     (if v > 2 ^ 64 - 1 then 2 ^ 64 - 1
      else if neg then (- v) mod 2 ^ 64 else v)"

definition strtol :: "bool \<Rightarrow> int \<Rightarrow> int" where
  "strtol neg v =
     (if neg then (if v > 2 ^ 63 then - (2 ^ 63) else - v)
      else (if v > 2 ^ 63 - 1 then 2 ^ 63 - 1 else v))"

definition as_int :: "int \<Rightarrow> int" where
  "as_int n = (let m = n mod 2 ^ 32 in if m \<ge> 2 ^ 31 then m - 2 ^ 32 else m)"

definition as_unsigned_int :: "int \<Rightarrow> int" where
  "as_unsigned_int n = n mod 2 ^ 32"

definition scan_number :: "string \<Rightarrow> (bool \<times> int) option" where
  "scan_number str =
     (let r = dropWhile is_space str;
          neg = (r \<noteq> [] \<and> hd r = CHR ''-'');
          r' = (if r \<noteq> [] \<and> (hd r = CHR ''-'' \<or> hd r = CHR ''+'') then tl r else r);
          ds = takeWhile is_digit r'
      in if ds = [] then None else Some (neg, digits_value ds))"

definition sscanf_cid :: "string \<Rightarrow> int option" where
  "sscanf_cid event =
     (case drop 3 (split_words [] event) of
        [] \<Rightarrow> None
      | w # _ \<Rightarrow> (case scan_number w of
                    None \<Rightarrow> None
                  | Some (neg, v) \<Rightarrow> Some (as_int (strtoul neg v))))"

definition cgev_notify :: "int \<Rightarrow> GAtResult \<Rightarrow> gprs_data \<Rightarrow> gprs_data \<times> at_action list" where
  "cgev_notify context_id0 result gd =
     (case g_at_result_iter_next ''+CGEV:'' result of
        None \<Rightarrow> (gd, [])
      | Some flds \<Rightarrow>
          (case g_at_result_iter_next_unquoted_string flds of
             None \<Rightarrow> (gd, [])
           | Some (event, _) \<Rightarrow>
               if event = ''NW DETACH'' \<or> event = ''ME DETACH'' then
                 (if vendor gd = OFONO_VENDOR_TELIT \<and> telit_try_reattach gd then (gd, [])
                  else (gd\<lparr>gd_attached := 0\<rparr>, [Core_detached_notify]))
               else if prefix ''ME PDN ACT'' event then
                 ((case sscanf_cid event of
                     None \<Rightarrow> gd
                   | Some n \<Rightarrow> gd\<lparr>last_auto_context_id := n\<rparr>),
                  [Chat_send ''AT+CGDCONT?''])
               else if prefix ''ME PDN DEACT'' event then
                 (let context_id = (case sscanf_cid event of None \<Rightarrow> context_id0 | Some n \<Rightarrow> n)
                  in if last_auto_context_id gd = context_id
                     then (gd\<lparr>last_auto_context_id := -1\<rparr>, [])
                     else (gd, []))
               else (gd, [])))"

text \<open>
  \<^verbatim>\<open>at_gprs_set_attached\<close>: \<open>sent\<close> says whether \<^verbatim>\<open>g_at_chat_send\<close> queued the
  command; the user-visible attach request is the only writer of \<open>gd_attached\<close>
  besides a packet-event detach.
\<close>

definition at_gprs_set_attached :: "bool \<Rightarrow> int \<Rightarrow> gprs_data \<Rightarrow> gprs_data \<times> at_action list" where
  "at_gprs_set_attached sent attached gd =
     (if sent
      then (gd\<lparr>gd_attached := attached\<rparr>,
            [Chat_send (if attached \<noteq> 0 then ''AT+CGATT=1'' else ''AT+CGATT=0'')])
      else (gd, []))"

text \<open>
  \<^verbatim>\<open>xdatastat_notify\<close>. The local \<^verbatim>\<open>stat\<close> is not initialised, and the
  \<^verbatim>\<open>if\<close> on the failed read guards only the debug print that follows it, so the
  \<^verbatim>\<open>switch\<close> runs on whatever \<^verbatim>\<open>stat\<close> held: \<open>stat0\<close> is that content.
\<close>

definition xdatastat_notify :: "int \<Rightarrow> GAtResult \<Rightarrow> at_action list" where
  "xdatastat_notify stat0 result =
     (case g_at_result_iter_next ''+XDATASTAT:'' result of
        None \<Rightarrow> []
      | Some flds \<Rightarrow>
          (let stat = (case g_at_result_iter_next_number flds of
                         None \<Rightarrow> stat0
                       | Some (n, _) \<Rightarrow> n)
           in if stat = 0 then [Core_suspend_notify GPRS_SUSPENDED_UNKNOWN_CAUSE]
              else if stat = 1 then [Core_resume_notify]
              else []))"

text \<open>The vendor bearer handlers. Each returns the calls it makes into the core: none
  when the line does not parse, else one \<^verbatim>\<open>ofono_gprs_bearer_notify\<close>.\<close>

definition huawei_mode_notify :: "GAtResult \<Rightarrow> at_action list" where
  "huawei_mode_notify result =
     (case g_at_result_iter_next ''^MODE:'' result of
        None \<Rightarrow> []
      | Some flds \<Rightarrow>
          (case g_at_result_iter_next_number flds of
             None \<Rightarrow> []
           | Some (mode, flds') \<Rightarrow>
               (case g_at_result_iter_next_number flds' of
                  None \<Rightarrow> []
                | Some (submode, _) \<Rightarrow>
                    [Core_bearer_notify
                      (if submode = 1 \<or> submode = 2 then 1
                       else if submode = 3 then 2
                       else if submode = 4 then 3
                       else if submode = 5 then 5
                       else if submode = 6 then 4
                       else if submode = 7 \<or> submode = 9 then 6
                       else 0)])))"

definition telit_mode_notify :: "GAtResult \<Rightarrow> at_action list" where
  "telit_mode_notify result =
     (case g_at_result_iter_next ''#PSNT:'' result of
        None \<Rightarrow> []
      | Some flds \<Rightarrow>
          (case g_at_result_iter_next_number flds of
             None \<Rightarrow> []
           | Some (nt, _) \<Rightarrow>
               [Core_bearer_notify
                 (if nt = 0 then 1
                  else if nt = 1 then 2
                  else if nt = 2 then 3
                  else if nt = 3 then 5
                  else if nt = 4 then 7
                  else 0)]))"

definition simcom_mode_notify :: "GAtResult \<Rightarrow> at_action list" where
  "simcom_mode_notify result =
     (case g_at_result_iter_next ''+CNSMOD:'' result of
        None \<Rightarrow> []
      | Some flds \<Rightarrow>
          (case g_at_result_iter_next_number flds of
             None \<Rightarrow> []
           | Some (stat, _) \<Rightarrow>
               [Core_bearer_notify
                 (if stat = 0 then PACKET_BEARER_NONE
                  else if stat = 1 \<or> stat = 2 then PACKET_BEARER_GPRS
                  else if stat = 3 then PACKET_BEARER_EGPRS
                  else if stat = 4 then PACKET_BEARER_UMTS
                  else if stat = 5 then PACKET_BEARER_HSDPA
                  else if stat = 6 then PACKET_BEARER_HSUPA
                  else if stat = 7 then PACKET_BEARER_HSUPA_HSDPA
                  else if stat = 8 then PACKET_BEARER_EPS
                  else PACKET_BEARER_NONE)]))"

definition ublox_ureg_notify :: "GAtResult \<Rightarrow> at_action list" where
  "ublox_ureg_notify result =
     (case g_at_result_iter_next ''+UREG:'' result of
        None \<Rightarrow> []
      | Some flds \<Rightarrow>
          (case g_at_result_iter_next_number flds of
             None \<Rightarrow> []
           | Some (state, _) \<Rightarrow>
               [Core_bearer_notify
                 (if state = 4 then 5
                  else if state = 5 then 4
                  else if state = 8 then 1
                  else if state = 9 then 2
                  else state)]))"


section \<open>Collaborators of the core: integer sets, the key file, the bus\<close>

text \<open>
  \<^verbatim>\<open>l_uintset\<close> of the ell library: a set of the numbers \<open>umin .. umax\<close>. A number
  outside the range is never a member; \<^verbatim>\<open>l_uintset_put\<close> and
  \<^verbatim>\<open>l_uintset_take\<close> leave the set alone for such a number;
  \<^verbatim>\<open>l_uintset_find_unused_min\<close> scans upwards from \<open>umin\<close>;
  \<^verbatim>\<open>l_uintset_find_unused\<close> scans upwards from \<open>start\<close> and then wraps to
  \<open>umin\<close>; both answer \<open>umax + 1\<close> when every number is taken.
\<close>

record l_uintset =
  umin :: nat
  umax :: nat
  members :: "nat set"

definition l_uintset_new_from_range :: "nat \<Rightarrow> nat \<Rightarrow> l_uintset option" where
  "l_uintset_new_from_range lo hi =
     (if hi < lo then None else Some \<lparr>umin = lo, umax = hi, members = {}\<rparr>)"

definition l_uintset_new :: "nat \<Rightarrow> l_uintset option" where
  "l_uintset_new n = l_uintset_new_from_range 1 n"

definition l_uintset_get_max :: "l_uintset \<Rightarrow> nat" where
  "l_uintset_get_max s = umax s"

definition l_uintset_contains :: "l_uintset \<Rightarrow> nat \<Rightarrow> bool" where
  "l_uintset_contains s n = (umin s \<le> n \<and> n \<le> umax s \<and> n \<in> members s)"

definition l_uintset_put :: "l_uintset \<Rightarrow> nat \<Rightarrow> l_uintset" where
  "l_uintset_put s n =
     (if n < umin s \<or> umax s < n then s else s\<lparr>members := insert n (members s)\<rparr>)"

definition l_uintset_take :: "l_uintset \<Rightarrow> nat \<Rightarrow> l_uintset" where
  "l_uintset_take s n =
     (if n < umin s \<or> umax s < n then s else s\<lparr>members := members s - {n}\<rparr>)"

definition l_uintset_find_unused_min :: "l_uintset \<Rightarrow> nat" where
  "l_uintset_find_unused_min s =
     (case find (\<lambda>n. n \<notin> members s) [umin s ..< Suc (umax s)] of
        None \<Rightarrow> umax s + 1
      | Some n \<Rightarrow> n)"

definition l_uintset_find_unused :: "l_uintset \<Rightarrow> nat \<Rightarrow> nat" where
  "l_uintset_find_unused s start =
     (if start < umin s \<or> umax s < start then umax s + 1
      else case find (\<lambda>n. n \<notin> members s) [start ..< Suc (umax s)] of
             Some n \<Rightarrow> n
           | None \<Rightarrow> l_uintset_find_unused_min s)"

text \<open>
  The settings store (a GLib key file): groups of keys. Writing a \<^verbatim>\<open>NULL\<close> string is
  refused by GLib and changes nothing.
\<close>

type_synonym GKeyFile = "string \<Rightarrow> (string \<Rightarrow> string option) option"

definition g_key_file_get_string :: "GKeyFile \<Rightarrow> string \<Rightarrow> string \<Rightarrow> string option" where
  "g_key_file_get_string kf grp k = (case kf grp of None \<Rightarrow> None | Some m \<Rightarrow> m k)"

definition g_key_file_set_string :: "GKeyFile \<Rightarrow> string \<Rightarrow> string \<Rightarrow> string option \<Rightarrow> GKeyFile" where
  "g_key_file_set_string kf grp k v =
     (case v of
        None \<Rightarrow> kf
      | Some str \<Rightarrow> kf(grp \<mapsto> (case kf grp of None \<Rightarrow> Map.empty | Some m \<Rightarrow> m)(k \<mapsto> str)))"

definition g_key_file_remove_group :: "GKeyFile \<Rightarrow> string \<Rightarrow> GKeyFile" where
  "g_key_file_remove_group kf grp = kf(grp := None)"

type_synonym DBusMessage = nat

datatype dbus_value =
    DBUS_BOOLEAN bool
  | DBUS_STRING string
  | DBUS_OBJECT_PATH string
  | DBUS_DICT

datatype dbus_signal =
    PropertyChanged string string dbus_value
  | ContextAdded string
  | ContextRemoved string

datatype dbus_error =
    E_invalid_args
  | E_invalid_format
  | E_not_found
  | E_not_attached
  | E_attach_in_progress
  | E_busy
  | E_in_use
  | E_not_allowed
  | E_not_implemented
  | E_failed

text \<open>What a method handler hands back: an error reply, a plain method return, a reply
  it has already sent itself (the handler returns \<^verbatim>\<open>NULL\<close>), or no reply yet (the
  handler returns \<^verbatim>\<open>NULL\<close> and keeps the message as pending).\<close>

datatype dbus_reply =
    Error dbus_error
  | Method_return
  | Sent "dbus_value option"
  | Deferred

datatype driver_call =
    Set_attached bool
  | Attached_status
  | Activate_primary nat nat
  | Deactivate_primary nat nat
  | Read_settings nat nat
  | Detach_shutdown nat nat

text \<open>
  The helpers of \<^verbatim>\<open>common.c\<close> that the core calls; the file is not among the sources.
  The core is modelled over any implementation of them, passed as a record.
\<close>

record common_c =
  is_valid_apn :: "string \<Rightarrow> bool"
  gprs_proto_to_string :: "ofono_gprs_proto \<Rightarrow> string"
  gprs_proto_from_string :: "string \<Rightarrow> ofono_gprs_proto option"
  gprs_auth_method_to_string :: "ofono_gprs_auth_method \<Rightarrow> string"
  gprs_auth_method_from_string :: "string \<Rightarrow> ofono_gprs_auth_method option"

text \<open>
  Modelled from the spec: an implementation of the helpers of \<^verbatim>\<open>common.c\<close>, used only
  to run the model on concrete inputs. The specification asks for an APN that is
  printable, bounded in length and of the standard APN character class (letters, digits,
  hyphen and dot), names the protocols IP, IPV6 and IPV4V6 with the stored default
  \<open>ip\<close>, and the authentication methods CHAP, PAP and NONE with the stored default
  \<open>chap\<close>.
\<close>

definition apn_char_ok :: "char \<Rightarrow> bool" where
  "apn_char_ok c =
     (is_digit c \<or> (65 \<le> (of_char c :: nat) \<and> (of_char c :: nat) \<le> 90)
      \<or> (97 \<le> (of_char c :: nat) \<and> (of_char c :: nat) \<le> 122)
      \<or> c = CHR ''-'' \<or> c = CHR ''.'')"

definition common_ofono :: common_c where
  "common_ofono =
     \<lparr>is_valid_apn = (\<lambda>s. s \<noteq> [] \<and> length s \<le> OFONO_GPRS_MAX_APN_LENGTH
                          \<and> hd s \<noteq> CHR ''.'' \<and> list_all apn_char_ok s),
      gprs_proto_to_string = (\<lambda>p. case p of
          OFONO_GPRS_PROTO_IP \<Rightarrow> ''ip''
        | OFONO_GPRS_PROTO_IPV6 \<Rightarrow> ''ipv6''
        | OFONO_GPRS_PROTO_IPV4V6 \<Rightarrow> ''dual''),
      gprs_proto_from_string = (\<lambda>s.
          if s = ''ip'' then Some OFONO_GPRS_PROTO_IP
          else if s = ''ipv6'' then Some OFONO_GPRS_PROTO_IPV6
          else if s = ''dual'' then Some OFONO_GPRS_PROTO_IPV4V6
          else None),
      gprs_auth_method_to_string = (\<lambda>a. case a of
          OFONO_GPRS_AUTH_METHOD_CHAP \<Rightarrow> ''chap''
        | OFONO_GPRS_AUTH_METHOD_PAP \<Rightarrow> ''pap''
        | OFONO_GPRS_AUTH_METHOD_NONE \<Rightarrow> ''none''),
      gprs_auth_method_from_string = (\<lambda>s.
          if s = ''chap'' then Some OFONO_GPRS_AUTH_METHOD_CHAP
          else if s = ''pap'' then Some OFONO_GPRS_AUTH_METHOD_PAP
          else if s = ''none'' then Some OFONO_GPRS_AUTH_METHOD_NONE
          else None)\<rparr>"

section \<open>The core: data model\<close>

record ipv4_settings =
  static_ip :: bool
  v4_ip :: "string option"
  v4_netmask :: "string option"
  v4_gateway :: "string option"
  v4_dns :: "string list option"
  v4_proxy :: "string option"

record ipv6_settings =
  v6_ip :: "string option"
  v6_prefix_len :: nat
  v6_gateway :: "string option"
  v6_dns :: "string list option"

record context_settings =
  ipv4 :: "ipv4_settings option"
  ipv6 :: "ipv6_settings option"

definition ipv4_settings_new0 :: ipv4_settings where
  "ipv4_settings_new0 =
     \<lparr>static_ip = False, v4_ip = None, v4_netmask = None, v4_gateway = None,
      v4_dns = None, v4_proxy = None\<rparr>"

definition ipv6_settings_new0 :: ipv6_settings where
  "ipv6_settings_new0 = \<lparr>v6_ip = None, v6_prefix_len = 0, v6_gateway = None, v6_dns = None\<rparr>"

record ofono_gprs_context_driver =
  activate_primary :: bool
  deactivate_primary :: bool
  read_settings :: bool
  detach_shutdown :: bool

text \<open>A context driver binding (\<^verbatim>\<open>struct ofono_gprs_context\<close>). Only bindings with a
  driver are ever linked into the manager (\<^verbatim>\<open>ofono_gprs_add_context\<close> returns at once
  for the others), so the driver is not optional here.\<close>

record ofono_gprs_context =
  gc_type :: ofono_gprs_context_type
  gc_inuse :: bool
  gc_driver :: ofono_gprs_context_driver
  gc_interface :: "string option"
  gc_settings :: context_settings

record ofono_gprs_primary_context =
  pc_cid :: nat
  pc_apn :: string
  pc_username :: string
  pc_password :: string
  pc_proto :: ofono_gprs_proto
  pc_auth_method :: ofono_gprs_auth_method

text \<open>A primary context (\<^verbatim>\<open>struct pri_context\<close>). The pointer to its binding is the
  binding's position in the manager's \<open>context_drivers\<close>; a context itself is named
  by its position in \<open>contexts\<close>.\<close>

record pri_context =
  ctx_active :: bool
  ctx_type :: ofono_gprs_context_type
  ctx_name :: string
  ctx_message_proxy :: string
  ctx_message_center :: string
  ctx_id :: nat
  ctx_path :: string
  ctx_key :: string
  ctx_proxy_host :: "string option"
  ctx_proxy_port :: nat
  ctx_pending :: "DBusMessage option"
  ctx_context :: ofono_gprs_primary_context
  ctx_context_driver :: "nat option"

record ofono_gprs_driver =
  set_attached :: bool
  attached_status :: bool
  list_active_contexts :: bool

text \<open>
  The Connection Manager (\<^verbatim>\<open>struct ofono_gprs\<close>). After the members of the C struct
  come what the core asks of its surroundings (the atom's path and registration, the
  access technology the netreg atom reports, whether the bus accepts a new object) and
  the two traces: the signals emitted and the driver operations invoked, oldest first.
\<close>

record ofono_gprs =
  contexts :: "pri_context list"
  attached :: bool
  driver_attached :: bool
  roaming_allowed :: bool
  powered :: bool
  suspended :: bool
  status :: int
  flags :: "32 word"
  bearer :: int
  suspend_timeout :: nat
  used_pids :: l_uintset
  last_context_id :: nat
  used_cids :: "l_uintset option"
  netreg_status :: int
  settings :: "GKeyFile option"
  pending :: "DBusMessage option"
  context_drivers :: "ofono_gprs_context list"
  driver :: ofono_gprs_driver
  atom_path :: string
  atom_registered :: bool
  netreg_technology :: int
  dbus_register_ok :: bool
  signals :: "dbus_signal list"
  driver_calls :: "driver_call list"

text \<open>The manager as \<^verbatim>\<open>OFONO_DEFINE_ATOM_CREATE(gprs, ...)\<close> leaves it: zeroed memory,
  then the four assignments of the macro's body.\<close>

definition gprs_create :: "ofono_gprs_driver \<Rightarrow> string \<Rightarrow> ofono_gprs" where
  "gprs_create drv path =
     \<lparr>contexts = [], attached = False, driver_attached = False, roaming_allowed = False,
      powered = False, suspended = False,
      status = NETWORK_REGISTRATION_STATUS_UNKNOWN, flags = 0, bearer = 0,
      suspend_timeout = 0,
      used_pids = \<lparr>umin = 1, umax = MAX_CONTEXTS, members = {}\<rparr>,
      last_context_id = 0,
      used_cids = l_uintset_new_from_range 1 (MAX_CONTEXTS - 1),
      netreg_status = -1, settings = None, pending = None, context_drivers = [],
      driver = drv, atom_path = path, atom_registered = False, netreg_technology = -1,
      dbus_register_ok = True, signals = [], driver_calls = []\<rparr>"

section \<open>The core: contexts and bindings\<close>

fun first_index :: "('a \<Rightarrow> bool) \<Rightarrow> 'a list \<Rightarrow> nat option" where
  "first_index P [] = None"
| "first_index P (x # xs) = (if P x then Some 0 else map_option Suc (first_index P xs))"

definition find_avail_gprs_context :: "pri_context \<Rightarrow> ofono_gprs \<Rightarrow> nat option" where
  "find_avail_gprs_context c g =
     first_index
       (\<lambda>gc. \<not> gc_inuse gc
             \<and> activate_primary (gc_driver gc) \<and> deactivate_primary (gc_driver gc)
             \<and> (gc_type gc = OFONO_GPRS_CONTEXT_TYPE_ANY \<or> gc_type gc = ctx_type c))
       (context_drivers g)"

text \<open>\<^verbatim>\<open>assign_context\<close>: \<open>None\<close> is the C function's \<^verbatim>\<open>FALSE\<close>, which it returns
  before it has changed anything.\<close>

definition assign_context :: "nat \<Rightarrow> nat \<Rightarrow> ofono_gprs \<Rightarrow> ofono_gprs option" where
  "assign_context i use_cid g =
     (case used_cids g of
        None \<Rightarrow> None
      | Some cids \<Rightarrow>
          (let use_cid' = (if use_cid = 0 then l_uintset_find_unused_min cids else use_cid)
           in if use_cid' > l_uintset_get_max cids then None
              else (case find_avail_gprs_context (contexts g ! i) g of
                      None \<Rightarrow> None
                    | Some k \<Rightarrow>
                        (let c = contexts g ! i;
                             gc = context_drivers g ! k;
                             p = pc_proto (ctx_context c);
                             st = gc_settings gc;
                             st1 = (if p = OFONO_GPRS_PROTO_IPV4V6 \<or> p = OFONO_GPRS_PROTO_IP
                                    then st\<lparr>ipv4 := Some ipv4_settings_new0\<rparr> else st);
                             st2 = (if p = OFONO_GPRS_PROTO_IPV4V6 \<or> p = OFONO_GPRS_PROTO_IPV6
                                    then st1\<lparr>ipv6 := Some ipv6_settings_new0\<rparr> else st1)
                         in Some (g\<lparr>used_cids := Some (l_uintset_put cids use_cid'),
                                    contexts := (contexts g)
                                      [i := c\<lparr>ctx_context := (ctx_context c)\<lparr>pc_cid := use_cid'\<rparr>,
                                              ctx_context_driver := Some k\<rparr>],
                                    context_drivers := (context_drivers g)
                                      [k := gc\<lparr>gc_inuse := True, gc_settings := st2\<rparr>]\<rparr>)))))"

definition release_context :: "nat \<Rightarrow> ofono_gprs \<Rightarrow> ofono_gprs" where
  "release_context i g =
     (let c = contexts g ! i
      in case ctx_context_driver c of
           None \<Rightarrow> g
         | Some k \<Rightarrow>
             g\<lparr>used_cids := map_option (\<lambda>s. l_uintset_take s (pc_cid (ctx_context c))) (used_cids g),
               contexts := (contexts g)
                 [i := c\<lparr>ctx_context := (ctx_context c)\<lparr>pc_cid := 0\<rparr>,
                         ctx_context_driver := None, ctx_active := False\<rparr>],
               context_drivers := (context_drivers g)
                 [k := (context_drivers g ! k)\<lparr>gc_inuse := False\<rparr>]\<rparr>)"

text \<open>\<^verbatim>\<open>pri_reset_context_settings\<close>, without the \<^verbatim>\<open>ioctl\<close>s that take the network
  interface down: they touch nothing the manager keeps.\<close>

definition pri_reset_context_settings :: "nat \<Rightarrow> ofono_gprs \<Rightarrow> ofono_gprs" where
  "pri_reset_context_settings i g =
     (let c = contexts g ! i
      in case ctx_context_driver c of
           None \<Rightarrow> g
         | Some k \<Rightarrow>
             (let gc = context_drivers g ! k;
                  signal_ipv4 = (ipv4 (gc_settings gc) \<noteq> None);
                  signal_ipv6 = (ipv6 (gc_settings gc) \<noteq> None);
                  c' = (if ctx_type c = OFONO_GPRS_CONTEXT_TYPE_MMS
                        then c\<lparr>ctx_proxy_host := None, ctx_proxy_port := 0\<rparr> else c)
              in g\<lparr>context_drivers := (context_drivers g)
                     [k := gc\<lparr>gc_settings := \<lparr>ipv4 = None, ipv6 = None\<rparr>\<rparr>],
                   contexts := (contexts g)[i := c'],
                   signals := signals g
                     @ (if signal_ipv4 then [PropertyChanged (ctx_path c) ''Settings'' DBUS_DICT] else [])
                     @ (if signal_ipv6 then [PropertyChanged (ctx_path c) ''IPv6.Settings'' DBUS_DICT] else [])\<rparr>))"

definition pri_context_signal_active :: "nat \<Rightarrow> ofono_gprs \<Rightarrow> ofono_gprs" where
  "pri_context_signal_active i g =
     g\<lparr>signals := signals g
        @ [PropertyChanged (ctx_path (contexts g ! i)) ''Active''
             (DBUS_BOOLEAN (ctx_active (contexts g ! i)))]\<rparr>"

definition have_active_contexts :: "ofono_gprs \<Rightarrow> bool" where
  "have_active_contexts g = list_ex ctx_active (contexts g)"

definition have_detachable_active_contexts :: "ofono_gprs \<Rightarrow> bool" where
  "have_detachable_active_contexts g =
     list_ex
       (\<lambda>c. case ctx_context_driver c of
               None \<Rightarrow> False
             | Some k \<Rightarrow> detach_shutdown (gc_driver (context_drivers g ! k)) \<and> ctx_active c)
       (contexts g)"

definition have_read_settings :: "ofono_gprs \<Rightarrow> bool" where
  "have_read_settings g = list_ex (\<lambda>gc. read_settings (gc_driver gc)) (context_drivers g)"

text \<open>One turn of the loop of \<^verbatim>\<open>detach_active_contexts\<close>, for the context at \<open>i\<close>. An
  active context has a binding (\<^verbatim>\<open>release_context\<close> clears both together), so the
  \<open>None\<close> case stands for a state the C code never meets.\<close>

definition detach_active_context :: "nat \<Rightarrow> ofono_gprs \<Rightarrow> ofono_gprs" where
  "detach_active_context i g =
     (let c = contexts g ! i
      in if \<not> ctx_active c then g
         else if ctx_pending c \<noteq> None then g
         else (case ctx_context_driver c of
                 None \<Rightarrow> g
               | Some k \<Rightarrow>
                   (let g1 = (if detach_shutdown (gc_driver (context_drivers g ! k))
                              then g\<lparr>driver_calls := driver_calls g
                                       @ [Detach_shutdown k (pc_cid (ctx_context c))]\<rparr>
                              else g)
                    in pri_context_signal_active i
                         (release_context i (pri_reset_context_settings i g1)))))"

definition detach_active_contexts :: "ofono_gprs \<Rightarrow> ofono_gprs" where
  "detach_active_contexts g = fold detach_active_context [0 ..< length (contexts g)] g"

section \<open>The core: the attach state machine\<close>

definition on_lte :: "ofono_gprs \<Rightarrow> bool" where
  "on_lte g = (netreg_technology g = ACCESS_TECHNOLOGY_EUTRAN \<and> have_read_settings g)"

definition gprs_set_attached_property :: "bool \<Rightarrow> ofono_gprs \<Rightarrow> ofono_gprs" where
  "gprs_set_attached_property a g =
     (if attached g = a then g
      else g\<lparr>attached := a,
             signals := signals g @ [PropertyChanged (atom_path g) ''Attached'' (DBUS_BOOLEAN a)]\<rparr>)"

definition status_is_registered :: "int \<Rightarrow> bool" where
  "status_is_registered st =
     (st = NETWORK_REGISTRATION_STATUS_REGISTERED
      \<or> st = NETWORK_REGISTRATION_STATUS_REGISTERED_SMS_EUTRAN
      \<or> st = NETWORK_REGISTRATION_STATUS_ROAMING
      \<or> st = NETWORK_REGISTRATION_STATUS_ROAMING_SMS_EUTRAN)"

definition gprs_attached_update :: "ofono_gprs \<Rightarrow> ofono_gprs" where
  "gprs_attached_update g =
     (let a = (if on_lte g then have_active_contexts g
               else driver_attached g \<and> status_is_registered (status g))
      in if a = attached g then g
         else if have_detachable_active_contexts g \<and> \<not> on_lte g then
           (let g1 = detach_active_contexts g
            in if a then g1\<lparr>flags := flags g1 OR GPRS_FLAG_ATTACHED_UPDATE\<rparr>
               else gprs_set_attached_property a (g1\<lparr>bearer := -1\<rparr>))
         else gprs_set_attached_property a (if \<not> a then g\<lparr>bearer := -1\<rparr> else g))"

definition ofono_gprs_detached_notify :: "ofono_gprs \<Rightarrow> ofono_gprs" where
  "ofono_gprs_detached_notify g =
     (if flags g AND GPRS_FLAG_ATTACHING \<noteq> 0 then g
      else gprs_attached_update (g\<lparr>driver_attached := False\<rparr>))"

definition ofono_gprs_status_notify :: "int \<Rightarrow> ofono_gprs \<Rightarrow> ofono_gprs" where
  "ofono_gprs_status_notify st g0 =
     (let g = g0\<lparr>status := st\<rparr>
      in if flags g AND GPRS_FLAG_ATTACHING \<noteq> 0 then g
         else if \<not> status_is_registered st then ofono_gprs_detached_notify g
         else if \<not> powered g
                 \<or> (\<not> roaming_allowed g \<and> st = NETWORK_REGISTRATION_STATUS_ROAMING)
         then g\<lparr>flags := flags g OR GPRS_FLAG_ATTACHING,
                driver_calls := driver_calls g @ [Set_attached False]\<rparr>
         else gprs_attached_update (g\<lparr>driver_attached := True\<rparr>))"

definition gprs_netreg_update :: "ofono_gprs \<Rightarrow> ofono_gprs" where
  "gprs_netreg_update g =
     (if netreg_status g < 0 then g
      else
        (let attach0 = (netreg_status g = NETWORK_REGISTRATION_STATUS_REGISTERED
                        \<or> netreg_status g = NETWORK_REGISTRATION_STATUS_REGISTERED_SMS_EUTRAN);
             attach1 = (attach0 \<or> (roaming_allowed g
                        \<and> (netreg_status g = NETWORK_REGISTRATION_STATUS_ROAMING
                           \<or> netreg_status g = NETWORK_REGISTRATION_STATUS_ROAMING_SMS_EUTRAN)));
             attach = (attach1 \<and> powered g)
         in if on_lte g then gprs_attached_update g
            else if driver_attached g = attach then g
            else if flags g AND GPRS_FLAG_ATTACHING \<noteq> 0
            then g\<lparr>flags := flags g OR GPRS_FLAG_RECHECK\<rparr>
            else g\<lparr>flags := flags g OR GPRS_FLAG_ATTACHING,
                   driver_attached := attach,
                   driver_calls := driver_calls g @ [Set_attached attach]\<rparr>))"

definition registration_status_cb :: "ofono_error_type \<Rightarrow> int \<Rightarrow> ofono_gprs \<Rightarrow> ofono_gprs" where
  "registration_status_cb err st g0 =
     (let g1 = g0\<lparr>flags := flags g0 AND NOT GPRS_FLAG_ATTACHING\<rparr>;
          g2 = (if err = OFONO_ERROR_TYPE_NO_ERROR then ofono_gprs_status_notify st g1
                else gprs_attached_update g1)
      in if flags g2 AND GPRS_FLAG_RECHECK \<noteq> 0
         then gprs_netreg_update (g2\<lparr>flags := flags g2 AND NOT GPRS_FLAG_RECHECK\<rparr>)
         else g2)"

definition gprs_attach_callback :: "ofono_error_type \<Rightarrow> ofono_gprs \<Rightarrow> ofono_gprs" where
  "gprs_attach_callback err g0 =
     (let g = (if err \<noteq> OFONO_ERROR_TYPE_NO_ERROR
               then g0\<lparr>driver_attached := \<not> driver_attached g0\<rparr> else g0)
      in if \<not> attached_status (driver g)
         then registration_status_cb OFONO_ERROR_TYPE_FAILURE (-1) g
         else g\<lparr>driver_calls := driver_calls g @ [Attached_status]\<rparr>)"

definition netreg_status_changed :: "int \<Rightarrow> ofono_gprs \<Rightarrow> ofono_gprs" where
  "netreg_status_changed st g = gprs_netreg_update (g\<lparr>netreg_status := st\<rparr>)"

definition ofono_gprs_bearer_notify :: "int \<Rightarrow> ofono_gprs \<Rightarrow> ofono_gprs" where
  "ofono_gprs_bearer_notify b g =
     (if bearer g = b then g
      else g\<lparr>bearer := b,
             signals := signals g
               @ [PropertyChanged (atom_path g) ''Bearer'' (DBUS_STRING (packet_bearer_to_string b))]\<rparr>)"

section \<open>The core: suspend and resume\<close>

definition update_suspended_property :: "bool \<Rightarrow> ofono_gprs \<Rightarrow> ofono_gprs" where
  "update_suspended_property b g0 =
     (let g = (if suspend_timeout g0 \<noteq> 0 then g0\<lparr>suspend_timeout := 0\<rparr> else g0)
      in if suspended g = b then g
         else (let g1 = g\<lparr>suspended := b\<rparr>
               in if attached g1
                  then g1\<lparr>signals := signals g1
                            @ [PropertyChanged (atom_path g1) ''Suspended'' (DBUS_BOOLEAN b)]\<rparr>
                  else g1))"

text \<open>The timer callback \<^verbatim>\<open>suspend_timeout\<close> (the record field of that name is the
  timer's source id).\<close>

definition suspend_timeout_cb :: "ofono_gprs \<Rightarrow> ofono_gprs" where
  "suspend_timeout_cb g = update_suspended_property True (g\<lparr>suspend_timeout := 0\<rparr>)"

text \<open>\<^verbatim>\<open>ofono_gprs_suspend_notify\<close>; \<open>source_id\<close> is the id that
  \<^verbatim>\<open>g_timeout_add_seconds\<close> hands out for the new 8 s timer.\<close>

fun ofono_gprs_suspend_notify :: "nat \<Rightarrow> gprs_suspend_cause \<Rightarrow> ofono_gprs \<Rightarrow> ofono_gprs" where
  "ofono_gprs_suspend_notify source_id GPRS_SUSPENDED_DETACHED g = update_suspended_property True g"
| "ofono_gprs_suspend_notify source_id GPRS_SUSPENDED_CALL g = update_suspended_property True g"
| "ofono_gprs_suspend_notify source_id GPRS_SUSPENDED_NO_COVERAGE g = update_suspended_property True g"
| "ofono_gprs_suspend_notify source_id GPRS_SUSPENDED_SIGNALLING g = g\<lparr>suspend_timeout := source_id\<rparr>"
| "ofono_gprs_suspend_notify source_id GPRS_SUSPENDED_UNKNOWN_CAUSE g = g\<lparr>suspend_timeout := source_id\<rparr>"

definition ofono_gprs_resume_notify :: "ofono_gprs \<Rightarrow> ofono_gprs" where
  "ofono_gprs_resume_notify g = update_suspended_property False g"

definition gprs_get_properties :: "ofono_gprs \<Rightarrow> (string \<times> dbus_value) list" where
  "gprs_get_properties g =
     [(''Attached'', DBUS_BOOLEAN (attached g))]
     @ (if bearer g \<noteq> -1 then [(''Bearer'', DBUS_STRING (packet_bearer_to_string (bearer g)))] else [])
     @ [(''RoamingAllowed'', DBUS_BOOLEAN (roaming_allowed g)),
        (''Powered'', DBUS_BOOLEAN (powered g))]
     @ (if attached g then [(''Suspended'', DBUS_BOOLEAN (suspended g))] else [])"


section \<open>The core: creating, storing and loading contexts\<close>

fun string_of_nat :: "nat \<Rightarrow> string" where
  "string_of_nat n =
     (if n < 10 then [char_of (48 + n)]
      else string_of_nat (n div 10) @ [char_of (48 + n mod 10)])"

declare string_of_nat.simps [simp del]

text \<open>\<^verbatim>\<open>pri_context_create\<close>: a zeroed \<^verbatim>\<open>struct pri_context\<close> with its name and type
  (allocation is taken to succeed).\<close>

definition pri_context_create :: "string option \<Rightarrow> ofono_gprs_context_type \<Rightarrow> pri_context option" where
  "pri_context_create name0 t =
     (case (case name0 of None \<Rightarrow> gprs_context_default_name t | Some n \<Rightarrow> Some n) of
        None \<Rightarrow> None
      | Some n \<Rightarrow>
          Some \<lparr>ctx_active = False, ctx_type = t, ctx_name = n, ctx_message_proxy = [],
                ctx_message_center = [], ctx_id = 0, ctx_path = [], ctx_key = [],
                ctx_proxy_host = None, ctx_proxy_port = 0, ctx_pending = None,
                ctx_context = \<lparr>pc_cid = 0, pc_apn = [], pc_username = [], pc_password = [],
                                pc_proto = OFONO_GPRS_PROTO_IP,
                                pc_auth_method = OFONO_GPRS_AUTH_METHOD_CHAP\<rparr>,
                ctx_context_driver = None\<rparr>)"

definition context_dbus_register :: "pri_context \<Rightarrow> ofono_gprs \<Rightarrow> ofono_gprs \<times> pri_context option" where
  "context_dbus_register c g =
     (if \<not> dbus_register_ok g
      then (g\<lparr>used_pids := l_uintset_take (used_pids g) (ctx_id c)\<rparr>, None)
      else (g, Some (c\<lparr>ctx_path := atom_path g @ ''/context'' @ string_of_nat (ctx_id c),
                        ctx_key := ''context'' @ string_of_nat (ctx_id c)\<rparr>)))"

definition write_context_settings :: "common_c \<Rightarrow> GKeyFile \<Rightarrow> pri_context \<Rightarrow> GKeyFile" where
  "write_context_settings cm kf0 c =
     (let k = ctx_key c;
          kf1 = g_key_file_set_string kf0 k ''Name'' (Some (ctx_name c));
          kf2 = g_key_file_set_string kf1 k ''AccessPointName'' (Some (pc_apn (ctx_context c)));
          kf3 = g_key_file_set_string kf2 k ''Username'' (Some (pc_username (ctx_context c)));
          kf4 = g_key_file_set_string kf3 k ''Password'' (Some (pc_password (ctx_context c)));
          kf5 = g_key_file_set_string kf4 k ''AuthenticationMethod''
                  (Some (gprs_auth_method_to_string cm (pc_auth_method (ctx_context c))));
          kf6 = g_key_file_set_string kf5 k ''Type'' (gprs_context_type_to_string (ctx_type c));
          kf7 = g_key_file_set_string kf6 k ''Protocol''
                  (Some (gprs_proto_to_string cm (pc_proto (ctx_context c))))
      in if ctx_type c = OFONO_GPRS_CONTEXT_TYPE_MMS
         then g_key_file_set_string
                (g_key_file_set_string kf7 k ''MessageProxy'' (Some (ctx_message_proxy c)))
                k ''MessageCenter'' (Some (ctx_message_center c))
         else kf7)"

definition find_usable_context :: "ofono_gprs \<Rightarrow> string \<Rightarrow> nat option" where
  "find_usable_context g reported =
     (case first_index (\<lambda>c. prefix (pc_apn (ctx_context c)) reported) (contexts g) of
        Some i \<Rightarrow> Some i
      | None \<Rightarrow> first_index (\<lambda>c. pc_apn (ctx_context c) = []) (contexts g))"

text \<open>
  The selection in the words of the specification, which are also those of the two
  comments in \<^verbatim>\<open>find_usable_context\<close>: a context matched by its APN, a prefix of the
  reported one, else a context left with an empty APN. It is what
  \<open>find_usable_context\<close> is compared with below.
\<close>

definition find_usable_context_spec :: "ofono_gprs \<Rightarrow> string \<Rightarrow> nat option" where
  "find_usable_context_spec g reported =
     (case first_index (\<lambda>c. pc_apn (ctx_context c) \<noteq> []
                              \<and> prefix (pc_apn (ctx_context c)) reported) (contexts g) of
        Some i \<Rightarrow> Some i
      | None \<Rightarrow> first_index (\<lambda>c. pc_apn (ctx_context c) = []) (contexts g))"

text \<open>The id both \<^verbatim>\<open>add_context\<close> and \<^verbatim>\<open>provision_context\<close> pick for a new
  context.\<close>

definition next_context_id :: "ofono_gprs \<Rightarrow> nat" where
  "next_context_id g =
     (if last_context_id g \<noteq> 0
      then l_uintset_find_unused (used_pids g) (last_context_id g)
      else l_uintset_find_unused_min (used_pids g))"

text \<open>\<^verbatim>\<open>add_context\<close>: the new state and, for a context that was created, its position
  in \<open>contexts\<close>.\<close>

definition add_context :: "common_c \<Rightarrow> string option \<Rightarrow> ofono_gprs_context_type \<Rightarrow> ofono_gprs
    \<Rightarrow> ofono_gprs \<times> nat option" where
  "add_context cm name0 t g =
     (let n = next_context_id g
      in if n > l_uintset_get_max (used_pids g) then (g, None)
         else (case pri_context_create name0 t of
                 None \<Rightarrow> (g, None)
               | Some c0 \<Rightarrow>
                   (case context_dbus_register (c0\<lparr>ctx_id := n\<rparr>)
                           (g\<lparr>used_pids := l_uintset_put (used_pids g) n\<rparr>) of
                      (g2, None) \<Rightarrow> (g2, None)
                    | (g2, Some c2) \<Rightarrow>
                        (let g3 = g2\<lparr>last_context_id := n\<rparr>;
                             g4 = (case settings g3 of
                                     None \<Rightarrow> g3
                                   | Some kf \<Rightarrow> g3\<lparr>settings := Some (write_context_settings cm kf c2)\<rparr>)
                         in (g4\<lparr>contexts := contexts g4 @ [c2]\<rparr>, Some (length (contexts g4)))))))"

text \<open>A template of the provisioning database (\<^verbatim>\<open>struct provision_db_entry\<close>); its
  type is a bit mask, of which \<^verbatim>\<open>provision_context\<close> keeps the lowest set bit. For a
  mask with none of the six type bits set the C code computes a value outside the
  enumeration (for a zero mask it shifts by a negative count); the model has no such
  type and leaves the state as it is for these masks.\<close>

record provision_db_entry =
  ap_type :: nat
  ap_proto :: ofono_gprs_proto
  ap_name :: "string option"
  ap_apn :: string
  ap_username :: "string option"
  ap_password :: "string option"
  ap_auth_method :: ofono_gprs_auth_method
  ap_message_proxy :: "string option"
  ap_message_center :: "string option"

definition lowest_type_bit :: "nat \<Rightarrow> ofono_gprs_context_type option" where
  "lowest_type_bit m =
     (if odd m then Some OFONO_GPRS_CONTEXT_TYPE_INTERNET
      else if odd (m div 2) then Some OFONO_GPRS_CONTEXT_TYPE_MMS
      else if odd (m div 4) then Some OFONO_GPRS_CONTEXT_TYPE_WAP
      else if odd (m div 8) then Some OFONO_GPRS_CONTEXT_TYPE_IMS
      else if odd (m div 16) then Some OFONO_GPRS_CONTEXT_TYPE_SUPL
      else if odd (m div 32) then Some OFONO_GPRS_CONTEXT_TYPE_IA
      else None)"

definition too_long :: "string option \<Rightarrow> nat \<Rightarrow> bool" where
  "too_long s n = (case s of None \<Rightarrow> False | Some str \<Rightarrow> length str > n)"

definition provision_context :: "common_c \<Rightarrow> provision_db_entry \<Rightarrow> ofono_gprs \<Rightarrow> ofono_gprs" where
  "provision_context cm ap g =
     (if too_long (ap_name ap) MAX_CONTEXT_NAME_LENGTH then g
      else if \<not> is_valid_apn cm (ap_apn ap) then g
      else if too_long (ap_username ap) OFONO_GPRS_MAX_USERNAME_LENGTH then g
      else if too_long (ap_password ap) OFONO_GPRS_MAX_PASSWORD_LENGTH then g
      else if too_long (ap_message_proxy ap) MAX_MESSAGE_PROXY_LENGTH then g
      else if too_long (ap_message_center ap) MAX_MESSAGE_CENTER_LENGTH then g
      else
        (let n = next_context_id g
         in if n > l_uintset_get_max (used_pids g) then g
            else (case lowest_type_bit (ap_type ap) of
                    None \<Rightarrow> g
                  | Some t \<Rightarrow>
                      (case pri_context_create (ap_name ap) t of
                         None \<Rightarrow> g
                       | Some c0 \<Rightarrow>
                           (let pc = \<lparr>pc_cid = 0, pc_apn = ap_apn ap,
                                      pc_username = (case ap_username ap of None \<Rightarrow> [] | Some u \<Rightarrow> u),
                                      pc_password = (case ap_password ap of None \<Rightarrow> [] | Some pw \<Rightarrow> pw),
                                      pc_proto = ap_proto ap,
                                      pc_auth_method = ap_auth_method ap\<rparr>;
                                c1 = c0\<lparr>ctx_id := n, ctx_context := pc\<rparr>;
                                c2 = (if t = OFONO_GPRS_CONTEXT_TYPE_MMS
                                      then c1\<lparr>ctx_message_proxy :=
                                                (case ap_message_proxy ap of None \<Rightarrow> [] | Some x \<Rightarrow> x),
                                              ctx_message_center :=
                                                (case ap_message_center ap of None \<Rightarrow> [] | Some x \<Rightarrow> x)\<rparr>
                                      else c1)
                            in case context_dbus_register c2
                                      (g\<lparr>used_pids := l_uintset_put (used_pids g) n\<rparr>) of
                                 (g2, None) \<Rightarrow> g2
                               | (g2, Some c3) \<Rightarrow>
                                   (let g3 = g2\<lparr>last_context_id := n\<rparr>;
                                        g4 = (case settings g3 of
                                                None \<Rightarrow> g3
                                              | Some kf \<Rightarrow>
                                                  g3\<lparr>settings := Some (write_context_settings cm kf c3)\<rparr>)
                                    in g4\<lparr>contexts := contexts g4 @ [c3]\<rparr>))))))"

text \<open>\<^verbatim>\<open>remove_non_active_context\<close>, with \<^verbatim>\<open>context_dbus_unregister\<close> for a context
  that is not active: the group leaves the settings, the id leaves \<open>used_pids\<close>, the
  context leaves the list.\<close>

definition remove_non_active_context :: "nat \<Rightarrow> ofono_gprs \<Rightarrow> ofono_gprs" where
  "remove_non_active_context i g =
     (let c = contexts g ! i
      in g\<lparr>settings := map_option (\<lambda>kf. g_key_file_remove_group kf (ctx_key c)) (settings g),
            used_pids := l_uintset_take (used_pids g) (ctx_id c),
            contexts := take i (contexts g) @ drop (Suc i) (contexts g),
            signals := signals g @ [ContextRemoved (ctx_path c)]\<rparr>)"

text \<open>\<^verbatim>\<open>sscanf(group, "<literal>%d", &id)\<close>: the literal, then white space, an
  optional sign and at least one digit. The C library converts them as \<^verbatim>\<open>strtol\<close>
  does, to a 64-bit \<^verbatim>\<open>long\<close> (the nearest one on overflow), and stores the low 32
  bits, which \<^verbatim>\<open>load_context\<close> reads back as the \<^verbatim>\<open>unsigned int id\<close>.\<close>

definition sscanf_d :: "string \<Rightarrow> string \<Rightarrow> int option" where
  "sscanf_d lit str =
     (if \<not> prefix lit str then None
      else (case scan_number (drop (length lit) str) of
              None \<Rightarrow> None
            | Some (neg, v) \<Rightarrow> Some (as_unsigned_int (strtol neg v))))"

text \<open>\<^verbatim>\<open>load_context\<close>: the new state and the C function's result. The
  \<^verbatim>\<open>strcpy\<close>s are taken to fit their buffers.\<close>

definition load_context :: "common_c \<Rightarrow> string \<Rightarrow> ofono_gprs \<Rightarrow> ofono_gprs \<times> bool" where
  "load_context cm grp g =
     (let get = (\<lambda>k. case settings g of None \<Rightarrow> None | Some kf \<Rightarrow> g_key_file_get_string kf grp k)
      in case (case sscanf_d ''context'' grp of
                 Some n \<Rightarrow> Some (n, False)
               | None \<Rightarrow> (case sscanf_d ''primarycontext'' grp of
                            Some n \<Rightarrow> Some (n, True)
                          | None \<Rightarrow> None)) of
           None \<Rightarrow> (g, False)
         | Some (n, legacy) \<Rightarrow>
        (if n < 1 \<or> n > int MAX_CONTEXTS then (g, False) else
        (case get ''Name'' of None \<Rightarrow> (g, False) | Some name \<Rightarrow>
        (case get ''Type'' of None \<Rightarrow> (g, False) | Some typestr \<Rightarrow>
        (case gprs_context_string_to_type typestr of None \<Rightarrow> (g, False) | Some t \<Rightarrow>
        (case gprs_proto_from_string cm (case get ''Protocol'' of None \<Rightarrow> ''ip'' | Some x \<Rightarrow> x) of
           None \<Rightarrow> (g, False) | Some p \<Rightarrow>
        (case get ''Username'' of None \<Rightarrow> (g, False) | Some username \<Rightarrow>
        (if length username > OFONO_GPRS_MAX_USERNAME_LENGTH then (g, False) else
        (case get ''Password'' of None \<Rightarrow> (g, False) | Some password \<Rightarrow>
        (case gprs_auth_method_from_string cm
                (case get ''AuthenticationMethod'' of None \<Rightarrow> ''chap'' | Some x \<Rightarrow> x) of
           None \<Rightarrow> (g, False) | Some a \<Rightarrow>
        (if length password > OFONO_GPRS_MAX_PASSWORD_LENGTH then (g, False) else
        (case get ''AccessPointName'' of None \<Rightarrow> (g, False) | Some apn \<Rightarrow>
        (let msgproxy = (if t = OFONO_GPRS_CONTEXT_TYPE_MMS then get ''MessageProxy'' else None);
             msgcenter = (if t = OFONO_GPRS_CONTEXT_TYPE_MMS then get ''MessageCenter'' else None)
         in if apn \<noteq> [] \<and> \<not> is_valid_apn cm apn then (g, False) else
        (case pri_context_create (Some name) t of None \<Rightarrow> (g, False) | Some c0 \<Rightarrow>
        (let c1 = c0\<lparr>ctx_id := nat n,
                     ctx_context := \<lparr>pc_cid = 0, pc_apn = apn, pc_username = username,
                                     pc_password = password, pc_proto = p,
                                     pc_auth_method = a\<rparr>,
                     ctx_message_proxy := (case msgproxy of None \<Rightarrow> [] | Some x \<Rightarrow> x),
                     ctx_message_center := (case msgcenter of None \<Rightarrow> [] | Some x \<Rightarrow> x)\<rparr>
         in (case context_dbus_register c1
                    (g\<lparr>used_pids := l_uintset_put (used_pids g) (nat n)\<rparr>) of
               (g2, None) \<Rightarrow> (g2, False)
             | (g2, Some c2) \<Rightarrow>
                 (let g3 = g2\<lparr>last_context_id := nat n, contexts := contexts g2 @ [c2]\<rparr>
                  in (if legacy
                      then g3\<lparr>settings := map_option
                                (\<lambda>kf. g_key_file_remove_group (write_context_settings cm kf c2) grp)
                                (settings g3)\<rparr>
                      else g3, True))))))))))))))))))"

section \<open>The core: bus methods and the auto-activation report\<close>

text \<open>\<^verbatim>\<open>ofono_gprs_cid_activated\<close>. After \<^verbatim>\<open>assign_context\<close> has succeeded the context
  has its binding, so the \<open>None\<close> case below stands for a state the C code never
  meets.\<close>

definition ofono_gprs_cid_activated :: "common_c \<Rightarrow> nat \<Rightarrow> string \<Rightarrow> ofono_gprs \<Rightarrow> ofono_gprs" where
  "ofono_gprs_cid_activated cm cid reported g =
     (if \<not> atom_registered g then g
      else if (case used_cids g of None \<Rightarrow> False | Some s \<Rightarrow> l_uintset_contains s cid) then g
      else if length reported > OFONO_GPRS_MAX_APN_LENGTH \<or> \<not> is_valid_apn cm reported then g
      else
        (case (case find_usable_context g reported of
                 Some i \<Rightarrow> (g, Some i)
               | None \<Rightarrow> add_context cm (Some reported) OFONO_GPRS_CONTEXT_TYPE_INTERNET g) of
           (g1, None) \<Rightarrow> g1
         | (g1, Some i) \<Rightarrow>
             (case assign_context i cid g1 of
                None \<Rightarrow> g1
              | Some g2 \<Rightarrow>
                  (case ctx_context_driver (contexts g2 ! i) of
                     None \<Rightarrow> g2
                   | Some k \<Rightarrow>
                       if \<not> read_settings (gc_driver (context_drivers g2 ! k))
                       then release_context i g2
                       else
                         (let c = contexts g2 ! i;
                              g3 = (if pc_apn (ctx_context c) = []
                                    then g2\<lparr>contexts := (contexts g2)
                                              [i := c\<lparr>ctx_context := (ctx_context c)\<lparr>pc_apn := reported\<rparr>\<rparr>],
                                            signals := signals g2
                                              @ [PropertyChanged (ctx_path c) ''AccessPointName''
                                                   (DBUS_STRING reported)]\<rparr>
                                    else g2)
                          in g3\<lparr>driver_calls := driver_calls g3 @ [Read_settings k cid]\<rparr>)))))"

text \<open>\<^verbatim>\<open>gprs_add_context\<close>; \<open>args\<close> are the arguments of the method call.\<close>

definition gprs_add_context :: "common_c \<Rightarrow> dbus_value list \<Rightarrow> ofono_gprs \<Rightarrow> dbus_reply \<times> ofono_gprs" where
  "gprs_add_context cm args g =
     (case args of
        [DBUS_STRING typestr] \<Rightarrow>
          (case gprs_context_string_to_type typestr of
             None \<Rightarrow> (Error E_invalid_format, g)
           | Some t \<Rightarrow>
               (case add_context cm
                       (Some (case gprs_context_default_name t of None \<Rightarrow> typestr | Some n \<Rightarrow> n)) t g of
                  (g1, None) \<Rightarrow> (Error E_failed, g1)
                | (g1, Some i) \<Rightarrow>
                    (Sent (Some (DBUS_OBJECT_PATH (ctx_path (contexts g1 ! i)))),
                     g1\<lparr>signals := signals g1 @ [ContextAdded (ctx_path (contexts g1 ! i))]\<rparr>)))
      | _ \<Rightarrow> (Error E_invalid_args, g))"


text \<open>
  The \<^verbatim>\<open>Active\<close> branch of \<^verbatim>\<open>pri_set_property\<close>, for the context at \<open>i\<close>: \<open>msg\<close> is
  the method call and \<open>var\<close> the value inside its variant. On the way to the driver
  call the context has a binding (just assigned, or kept since activation); the \<open>None\<close>
  case stands for a state the C code never meets.
\<close>

definition pri_set_property_Active :: "DBusMessage \<Rightarrow> dbus_value \<Rightarrow> nat \<Rightarrow> ofono_gprs
    \<Rightarrow> dbus_reply \<times> ofono_gprs" where
  "pri_set_property_Active msg var i g =
     (let c = contexts g ! i
      in if pending g \<noteq> None then (Error E_busy, g)
         else if ctx_pending c \<noteq> None then (Error E_busy, g)
         else (case var of
                 DBUS_BOOLEAN v \<Rightarrow>
                   if ctx_active c = v then (Method_return, g)
                   else if v \<and> \<not> attached g then (Error E_not_attached, g)
                   else if flags g AND GPRS_FLAG_ATTACHING \<noteq> 0 then (Error E_attach_in_progress, g)
                   else (case (if v then assign_context i 0 g else Some g) of
                           None \<Rightarrow> (Error E_not_implemented, g)
                         | Some g1 \<Rightarrow>
                             (let c1 = contexts g1 ! i;
                                  g2 = g1\<lparr>contexts := (contexts g1)[i := c1\<lparr>ctx_pending := Some msg\<rparr>]\<rparr>
                              in case ctx_context_driver c1 of
                                   None \<Rightarrow> (Deferred, g2)
                                 | Some k \<Rightarrow>
                                     (Deferred,
                                      g2\<lparr>driver_calls := driver_calls g2
                                           @ [if v then Activate_primary k (pc_cid (ctx_context c1))
                                              else Deactivate_primary k (pc_cid (ctx_context c1))]\<rparr>)))
               | _ \<Rightarrow> (Error E_invalid_args, g)))"


section \<open>Sample states\<close>

text \<open>Concrete states on which the theorems below are run: a driver with every
  operation; the manager as registration leaves it when nothing was stored or provisioned
  (\<^verbatim>\<open>ofono_gprs_finish_register\<close> adds one default internet context); a manager once
  the network has registered; the data of a Telit modem that is attached.\<close>

definition drv_sample :: ofono_gprs_driver where
  "drv_sample = \<lparr>set_attached = True, attached_status = True, list_active_contexts = True\<rparr>"

definition g_sample :: ofono_gprs where
  "g_sample = fst (add_context common_ofono None OFONO_GPRS_CONTEXT_TYPE_INTERNET
                     (gprs_create drv_sample ''/modem''))"

definition g_registered :: ofono_gprs where
  "g_registered =
     (gprs_create drv_sample ''/modem'')
       \<lparr>powered := True, netreg_status := NETWORK_REGISTRATION_STATUS_REGISTERED\<rparr>"

definition telit_sample :: gprs_data where
  "telit_sample =
     \<lparr>vendor = OFONO_VENDOR_TELIT, last_auto_context_id = -1,
      telit_try_reattach = False, gd_attached = 1\<rparr>"

text \<open>A binding of any type whose driver has every operation but the forced teardown,
  the registered manager with that one binding, and a provisioning template for an MMS
  access point.\<close>

definition gc_sample :: ofono_gprs_context where
  "gc_sample =
     \<lparr>gc_type = OFONO_GPRS_CONTEXT_TYPE_ANY, gc_inuse = False,
      gc_driver = \<lparr>activate_primary = True, deactivate_primary = True,
                    read_settings = True, detach_shutdown = False\<rparr>,
      gc_interface = Some ''wwan0'',
      gc_settings = \<lparr>ipv4 = None, ipv6 = None\<rparr>\<rparr>"

definition g_driver :: ofono_gprs where
  "g_driver = g_sample\<lparr>context_drivers := [gc_sample], atom_registered := True\<rparr>"

definition ap_mms_sample :: provision_db_entry where
  "ap_mms_sample =
     \<lparr>ap_type = 2, ap_proto = OFONO_GPRS_PROTO_IP, ap_name = Some ''Operator MMS'',
      ap_apn = ''mms.example'', ap_username = None, ap_password = None,
      ap_auth_method = OFONO_GPRS_AUTH_METHOD_CHAP,
      ap_message_proxy = Some ''10.0.0.1:8080'',
      ap_message_center = Some ''http://mms.example''\<rparr>"

text \<open>The registered manager before any binding has been added to it.\<close>

definition g_unbound :: ofono_gprs where
  "g_unbound = g_sample\<lparr>atom_registered := True\<rparr>"

text \<open>A provisioning template for an initial-attach access point, and a manager fresh
  from its creation whose settings store is open and holds no context.\<close>

definition ap_ia_sample :: provision_db_entry where
  "ap_ia_sample =
     \<lparr>ap_type = 32, ap_proto = OFONO_GPRS_PROTO_IPV4V6, ap_name = None,
      ap_apn = ''ia.example'', ap_username = None, ap_password = None,
      ap_auth_method = OFONO_GPRS_AUTH_METHOD_NONE,
      ap_message_proxy = None, ap_message_center = None\<rparr>"

definition g_sim :: ofono_gprs where
  "g_sim = (gprs_create drv_sample ''/modem'')\<lparr>settings := Some Map.empty\<rparr>"

section \<open>Searching a list, searching an integer set\<close>

lemma find_upt_Some:
  "find P [a..<b] = Some n \<Longrightarrow> a \<le> n \<and> n < b \<and> P n \<and> list_all (\<lambda>m. \<not> P m) [a..<n]"
proof (induction "b - a" arbitrary: a)
  case 0
  then show ?case by simp
next
  case (Suc d)
  then have ab: "a < b" by simp
  then have unf: "[a..<b] = a # [Suc a..<b]" by (simp add: upt_conv_Cons)
  show ?case
  proof (cases "P a")
    case True
    with Suc.prems unf have "n = a" by simp
    with True ab show ?thesis by simp
  next
    case False
    with Suc.prems unf have f: "find P [Suc a..<b] = Some n" by simp
    from Suc.hyps(2) have "d = b - Suc a" by simp
    from Suc.hyps(1) [OF this f]
    have ih: "Suc a \<le> n \<and> n < b \<and> P n \<and> list_all (\<lambda>m. \<not> P m) [Suc a..<n]" .
    then have "[a..<n] = a # [Suc a..<n]" by (simp add: upt_conv_Cons)
    with ih False show ?thesis by simp
  qed
qed

lemma find_upt_None:
  "find P [a..<b] = None \<Longrightarrow> list_all (\<lambda>m. \<not> P m) [a..<b]"
  by (simp add: find_None_iff list_all_iff)

lemma find_upt_first: "a < b \<Longrightarrow> P a \<Longrightarrow> find P [a..<b] = Some a"
  by (simp add: upt_conv_Cons)

lemma find_upt_next: "a < b \<Longrightarrow> \<not> P a \<Longrightarrow> find P [a..<b] = find P [Suc a..<b]"
  by (simp add: upt_conv_Cons)

lemma find_unused_min_least:
  assumes "l_uintset_find_unused_min s \<le> umax s"
  shows "umin s \<le> l_uintset_find_unused_min s
     \<and> l_uintset_find_unused_min s \<notin> members s
     \<and> list_all (\<lambda>m. m \<in> members s) [umin s ..< l_uintset_find_unused_min s]"
proof (cases "find (\<lambda>n. n \<notin> members s) [umin s ..< Suc (umax s)]")
  case None
  then have "l_uintset_find_unused_min s = umax s + 1"
    by (simp add: l_uintset_find_unused_min_def)
  with assms show ?thesis by simp
next
  case (Some n)
  then have "l_uintset_find_unused_min s = n"
    by (simp add: l_uintset_find_unused_min_def)
  with find_upt_Some [OF Some] show ?thesis by simp
qed

lemma find_unused_from:
  assumes "l_uintset_find_unused s start \<le> umax s"
  shows "umin s \<le> l_uintset_find_unused s start
     \<and> l_uintset_find_unused s start \<notin> members s
     \<and> umin s \<le> start \<and> start \<le> umax s
     \<and> (if start \<le> l_uintset_find_unused s start
         then list_all (\<lambda>m. m \<in> members s) [start ..< l_uintset_find_unused s start]
         else list_all (\<lambda>m. m \<in> members s) [start ..< Suc (umax s)]
              \<and> list_all (\<lambda>m. m \<in> members s) [umin s ..< l_uintset_find_unused s start])"
proof -
  have range: "umin s \<le> start \<and> start \<le> umax s"
  proof (rule ccontr)
    assume "\<not> (umin s \<le> start \<and> start \<le> umax s)"
    then have "l_uintset_find_unused s start = umax s + 1"
      by (auto simp: l_uintset_find_unused_def)
    with assms show False by simp
  qed
  show ?thesis
  proof (cases "find (\<lambda>n. n \<notin> members s) [start ..< Suc (umax s)]")
    case (Some n)
    with range have eq: "l_uintset_find_unused s start = n"
      by (simp add: l_uintset_find_unused_def)
    from find_upt_Some [OF Some] range show ?thesis unfolding eq by simp
  next
    case None
    with range have eq: "l_uintset_find_unused s start = l_uintset_find_unused_min s"
      by (simp add: l_uintset_find_unused_def)
    from find_upt_None [OF None]
    have all: "list_all (\<lambda>m. m \<in> members s) [start ..< Suc (umax s)]" by simp
    from assms eq have le: "l_uintset_find_unused_min s \<le> umax s" by simp
    have "\<not> start \<le> l_uintset_find_unused_min s"
    proof
      assume "start \<le> l_uintset_find_unused_min s"
      with le have "l_uintset_find_unused_min s \<in> set [start ..< Suc (umax s)]" by auto
      with all have "l_uintset_find_unused_min s \<in> members s"
        unfolding list_all_iff by blast
      with find_unused_min_least [OF le] show False by simp
    qed
    with find_unused_min_least [OF le] all range show ?thesis unfolding eq by simp
  qed
qed

lemma find_unused_min_first:
  "umin s \<le> umax s \<Longrightarrow> umin s \<notin> members s \<Longrightarrow> l_uintset_find_unused_min s = umin s"
  by (simp add: l_uintset_find_unused_min_def find_upt_first del: upt_Suc)

lemma find_unused_at_start:
  "umin s \<le> start \<Longrightarrow> start \<le> umax s \<Longrightarrow> start \<notin> members s
   \<Longrightarrow> l_uintset_find_unused s start = start"
  by (simp add: l_uintset_find_unused_def find_upt_first del: upt_Suc)

lemma find_unused_after_start:
  "umin s \<le> start \<Longrightarrow> start < umax s \<Longrightarrow> start \<in> members s \<Longrightarrow> Suc start \<notin> members s
   \<Longrightarrow> l_uintset_find_unused s start = Suc start"
  by (simp add: l_uintset_find_unused_def find_upt_next find_upt_first del: upt_Suc)

lemma first_index_Some:
  "first_index P xs = Some k \<Longrightarrow> k < length xs \<and> P (xs ! k) \<and> list_all (\<lambda>x. \<not> P x) (take k xs)"
proof (induction xs arbitrary: k)
  case Nil
  then show ?case by simp
next
  case (Cons x xs)
  show ?case
  proof (cases "P x")
    case True
    with Cons.prems show ?thesis by simp
  next
    case False
    with Cons.prems obtain j where j: "first_index P xs = Some j" and k: "k = Suc j"
      by auto
    from Cons.IH [OF j] False k show ?thesis by simp
  qed
qed

lemma first_index_None:
  "first_index P xs = None \<Longrightarrow> list_all (\<lambda>x. \<not> P x) xs"
  by (induction xs) (auto split: if_splits)

section \<open>What creating and binding a context changes\<close>

lemma context_dbus_register_ok:
  "dbus_register_ok g \<Longrightarrow> context_dbus_register c g =
     (g, Some (c\<lparr>ctx_path := atom_path g @ ''/context'' @ string_of_nat (ctx_id c),
                 ctx_key := ''context'' @ string_of_nat (ctx_id c)\<rparr>))"
  by (simp add: context_dbus_register_def)

lemma context_dbus_register_fail:
  "\<not> dbus_register_ok g \<Longrightarrow> context_dbus_register c g =
     (g\<lparr>used_pids := l_uintset_take (used_pids g) (ctx_id c)\<rparr>, None)"
  by (simp add: context_dbus_register_def)

lemma add_context_Some:
  assumes "add_context cm name0 t g = (g', Some k)"
  shows "k = length (contexts g)
     \<and> length (contexts g') = Suc (length (contexts g))
     \<and> take (length (contexts g)) (contexts g') = contexts g
     \<and> ctx_id (contexts g' ! k) = next_context_id g
     \<and> ctx_type (contexts g' ! k) = t
     \<and> next_context_id g \<le> umax (used_pids g)
     \<and> used_pids g' = l_uintset_put (used_pids g) (next_context_id g)
     \<and> last_context_id g' = next_context_id g"
proof -
  let ?n = "next_context_id g"
  have le: "\<not> ?n > l_uintset_get_max (used_pids g)"
    using assms by (auto simp: add_context_def Let_def)
  obtain c0 where c0: "pri_context_create name0 t = Some c0"
    using assms le by (cases "pri_context_create name0 t") (auto simp: add_context_def Let_def)
  have ok: "dbus_register_ok g"
    using assms le c0
    by (cases "dbus_register_ok g")
      (auto simp: add_context_def Let_def context_dbus_register_fail)
  have t0: "ctx_type c0 = t"
    using c0 by (auto simp: pri_context_create_def split: option.splits)
  from assms le c0 ok t0 show ?thesis
    by (auto simp: add_context_def Let_def context_dbus_register_ok l_uintset_get_max_def
        nth_append split: option.splits)
qed

lemma add_context_ok:
  assumes "dbus_register_ok g" and "next_context_id g \<le> umax (used_pids g)"
    and "pri_context_create name0 t = Some c0" and "settings g = None"
  shows "add_context cm name0 t g =
     (g\<lparr>used_pids := l_uintset_put (used_pids g) (next_context_id g),
        last_context_id := next_context_id g,
        contexts := contexts g
          @ [c0\<lparr>ctx_id := next_context_id g,
                ctx_path := atom_path g @ ''/context'' @ string_of_nat (next_context_id g),
                ctx_key := ''context'' @ string_of_nat (next_context_id g)\<rparr>]\<rparr>,
      Some (length (contexts g)))"
  using assms
  by (simp add: add_context_def Let_def l_uintset_get_max_def context_dbus_register_def)

lemma gprs_add_context_internet:
  assumes "dbus_register_ok g" and "next_context_id g \<le> umax (used_pids g)"
    and "settings g = None"
  shows "contexts (snd (gprs_add_context cm [DBUS_STRING ''internet''] g))
       = contexts g
          @ [(the (pri_context_create (Some ''Internet'') OFONO_GPRS_CONTEXT_TYPE_INTERNET))
               \<lparr>ctx_id := next_context_id g,
                ctx_path := atom_path g @ ''/context'' @ string_of_nat (next_context_id g),
                ctx_key := ''context'' @ string_of_nat (next_context_id g)\<rparr>]
     \<and> used_pids (snd (gprs_add_context cm [DBUS_STRING ''internet''] g))
       = l_uintset_put (used_pids g) (next_context_id g)
     \<and> last_context_id (snd (gprs_add_context cm [DBUS_STRING ''internet''] g)) = next_context_id g
     \<and> dbus_register_ok (snd (gprs_add_context cm [DBUS_STRING ''internet''] g))
     \<and> settings (snd (gprs_add_context cm [DBUS_STRING ''internet''] g)) = None"
proof -
  have c: "pri_context_create (Some ''Internet'') OFONO_GPRS_CONTEXT_TYPE_INTERNET
      = Some (the (pri_context_create (Some ''Internet'') OFONO_GPRS_CONTEXT_TYPE_INTERNET))"
    by (simp add: pri_context_create_def)
  show ?thesis
    using assms
    by (simp add: gprs_add_context_def gprs_context_string_to_type_def
        add_context_ok [OF assms(1) assms(2) c assms(3)])
qed

lemma assign_context_Some:
  assumes "assign_context i use_cid g = Some g'" and "i < length (contexts g)"
  shows "\<exists>s k. used_cids g = Some s
     \<and> find_avail_gprs_context (contexts g ! i) g = Some k
     \<and> k < length (context_drivers g)
     \<and> (let c = (if use_cid = 0 then l_uintset_find_unused_min s else use_cid)
        in c \<le> umax s
           \<and> used_cids g' = Some (l_uintset_put s c)
           \<and> pc_cid (ctx_context (contexts g' ! i)) = c
           \<and> ctx_context_driver (contexts g' ! i) = Some k
           \<and> ctx_active (contexts g' ! i) = ctx_active (contexts g ! i)
           \<and> pc_apn (ctx_context (contexts g' ! i)) = pc_apn (ctx_context (contexts g ! i))
           \<and> length (contexts g') = length (contexts g)
           \<and> map ctx_active (contexts g') = map ctx_active (contexts g)
           \<and> length (context_drivers g') = length (context_drivers g)
           \<and> gc_inuse (context_drivers g' ! k)
           \<and> gc_driver (context_drivers g' ! k) = gc_driver (context_drivers g ! k)
           \<and> driver_calls g' = driver_calls g
           \<and> signals g' = signals g)"
proof -
  obtain s where s: "used_cids g = Some s"
    using assms(1) by (cases "used_cids g") (auto simp: assign_context_def)
  let ?c = "if use_cid = 0 then l_uintset_find_unused_min s else use_cid"
  have le: "\<not> ?c > l_uintset_get_max s"
    using assms(1) s by (auto simp: assign_context_def Let_def split: if_splits)
  obtain k where k: "find_avail_gprs_context (contexts g ! i) g = Some k"
    using assms(1) s le
    by (cases "find_avail_gprs_context (contexts g ! i) g")
      (auto simp: assign_context_def Let_def split: if_splits)
  have kl: "k < length (context_drivers g)"
    using first_index_Some k unfolding find_avail_gprs_context_def by blast
  have g': "g' = g\<lparr>used_cids := Some (l_uintset_put s ?c),
        contexts := (contexts g)
          [i := (contexts g ! i)\<lparr>ctx_context := (ctx_context (contexts g ! i))\<lparr>pc_cid := ?c\<rparr>,
                  ctx_context_driver := Some k\<rparr>],
        context_drivers := (context_drivers g)
          [k := (context_drivers g ! k)\<lparr>gc_inuse := True,
                 gc_settings :=
                   (let p = pc_proto (ctx_context (contexts g ! i));
                        st = gc_settings (context_drivers g ! k);
                        st1 = (if p = OFONO_GPRS_PROTO_IPV4V6 \<or> p = OFONO_GPRS_PROTO_IP
                               then st\<lparr>ipv4 := Some ipv4_settings_new0\<rparr> else st)
                    in (if p = OFONO_GPRS_PROTO_IPV4V6 \<or> p = OFONO_GPRS_PROTO_IPV6
                        then st1\<lparr>ipv6 := Some ipv6_settings_new0\<rparr> else st1))\<rparr>]\<rparr>"
    using assms(1) s le k
    by (simp add: assign_context_def Let_def split: if_splits)
  have m: "map ctx_active ((contexts g)
          [i := (contexts g ! i)\<lparr>ctx_context := (ctx_context (contexts g ! i))\<lparr>pc_cid := ?c\<rparr>,
                  ctx_context_driver := Some k\<rparr>]) = map ctx_active (contexts g)"
    using assms(2) by (simp add: map_update list_update_same_conv)
  from s k kl le assms(2) m show ?thesis
    unfolding g' by (simp add: l_uintset_get_max_def Let_def)
qed

lemma provision_context_contexts:
  "contexts (provision_context cm ap g) = contexts g
   \<or> (\<exists>c. contexts (provision_context cm ap g) = contexts g @ [c]
          \<and> ctx_id c = next_context_id g)"
  by (simp add: provision_context_def Let_def context_dbus_register_def
      split: option.split prod.split)

lemma provision_context_id:
  "length (contexts (provision_context cm ap g)) \<noteq> length (contexts g)
   \<Longrightarrow> ctx_id (last (contexts (provision_context cm ap g))) = next_context_id g"
  using provision_context_contexts [of cm ap g] by auto

lemma next_context_id_unused:
  assumes "next_context_id g \<le> umax (used_pids g)"
  shows "umin (used_pids g) \<le> next_context_id g
     \<and> next_context_id g \<notin> members (used_pids g)
     \<and> (if last_context_id g = 0
         then list_all (\<lambda>m. m \<in> members (used_pids g))
                [umin (used_pids g) ..< next_context_id g]
         else if last_context_id g \<le> next_context_id g
         then list_all (\<lambda>m. m \<in> members (used_pids g))
                [last_context_id g ..< next_context_id g]
         else list_all (\<lambda>m. m \<in> members (used_pids g))
                [last_context_id g ..< Suc (umax (used_pids g))]
              \<and> list_all (\<lambda>m. m \<in> members (used_pids g))
                [umin (used_pids g) ..< next_context_id g])"
proof (cases "last_context_id g = 0")
  case True
  then have eq: "next_context_id g = l_uintset_find_unused_min (used_pids g)"
    by (simp add: next_context_id_def)
  from assms find_unused_min_least [of "used_pids g"] True show ?thesis
    unfolding eq by simp
next
  case False
  then have eq: "next_context_id g = l_uintset_find_unused (used_pids g) (last_context_id g)"
    by (simp add: next_context_id_def)
  from assms find_unused_from [of "used_pids g" "last_context_id g"] False show ?thesis
    unfolding eq by (simp del: upt_Suc)
qed

section \<open>The sample states, evaluated\<close>

lemma g_sample_eval:
  "g_sample = (gprs_create drv_sample ''/modem'')
     \<lparr>used_pids := \<lparr>umin = 1, umax = MAX_CONTEXTS, members = {1}\<rparr>,
      last_context_id := 1,
      contexts := [\<lparr>ctx_active = False, ctx_type = OFONO_GPRS_CONTEXT_TYPE_INTERNET,
                    ctx_name = ''Internet'', ctx_message_proxy = [], ctx_message_center = [],
                    ctx_id = 1, ctx_path = ''/modem/context1'', ctx_key = ''context1'',
                    ctx_proxy_host = None, ctx_proxy_port = 0, ctx_pending = None,
                    ctx_context = \<lparr>pc_cid = 0, pc_apn = [], pc_username = [], pc_password = [],
                                    pc_proto = OFONO_GPRS_PROTO_IP,
                                    pc_auth_method = OFONO_GPRS_AUTH_METHOD_CHAP\<rparr>,
                    ctx_context_driver = None\<rparr>]\<rparr>"
proof -
  have n: "next_context_id (gprs_create drv_sample ''/modem'') = 1"
    by (simp add: next_context_id_def gprs_create_def find_unused_min_first MAX_CONTEXTS_def)
  have "string_of_nat 1 = ''1''"
    by code_simp
  then have s1: "string_of_nat (Suc 0) = ''1''" by simp
  show ?thesis
    unfolding g_sample_def add_context_def Let_def n
    by (simp add: gprs_create_def l_uintset_get_max_def MAX_CONTEXTS_def pri_context_create_def
        context_dbus_register_def l_uintset_put_def s1)
qed

lemma valid_mms_apn: "is_valid_apn common_ofono ''mms.example''"
  by (simp add: common_ofono_def apn_char_ok_def is_digit_def OFONO_GPRS_MAX_APN_LENGTH_def)

lemma g_driver_fields:
  "used_cids g_driver = Some \<lparr>umin = 1, umax = 255, members = {}\<rparr>"
  "used_pids g_driver = \<lparr>umin = 1, umax = 256, members = {1}\<rparr>"
  "last_context_id g_driver = 1" "length (contexts g_driver) = 1"
  "dbus_register_ok g_driver" "settings g_driver = None"
  "context_drivers g_driver = [gc_sample]"
  "ctx_type (contexts g_driver ! 0) = OFONO_GPRS_CONTEXT_TYPE_INTERNET"
  "pc_proto (ctx_context (contexts g_driver ! 0)) = OFONO_GPRS_PROTO_IP"
  by (simp_all add: g_driver_def g_sample_eval gprs_create_def MAX_CONTEXTS_def
      l_uintset_new_from_range_def)

lemma next_context_id_g_driver: "next_context_id g_driver = 2"
  using find_unused_after_start [of "used_pids g_driver" 1]
  by (simp add: next_context_id_def g_driver_fields)

lemma assign_g_driver:
  "\<exists>g'. assign_context 0 0 g_driver = Some g'"
proof -
  have "l_uintset_find_unused_min \<lparr>umin = 1, umax = 255, members = {}\<rparr> = 1"
    using find_unused_min_first [of "\<lparr>umin = 1, umax = 255, members = {}\<rparr>"] by simp
  then have m: "l_uintset_find_unused_min \<lparr>umin = Suc 0, umax = 255, members = {}\<rparr> = Suc 0"
    by simp
  have f: "find_avail_gprs_context (contexts g_driver ! 0) g_driver = Some 0"
    by (simp add: find_avail_gprs_context_def g_driver_fields gc_sample_def)
  show ?thesis
    by (simp add: assign_context_def Let_def g_driver_fields m f l_uintset_get_max_def)
qed

lemma provision_g_driver:
  "length (contexts (provision_context common_ofono ap_mms_sample g_driver))
     \<noteq> length (contexts g_driver)"
  unfolding provision_context_def Let_def
  by (simp add: ap_mms_sample_def valid_mms_apn too_long_def lowest_type_bit_def
      MAX_CONTEXT_NAME_LENGTH_def MAX_MESSAGE_PROXY_LENGTH_def MAX_MESSAGE_CENTER_LENGTH_def
      next_context_id_g_driver g_driver_fields l_uintset_get_max_def
      pri_context_create_def context_dbus_register_def)

section \<open>Context types: parsing against printing\<close>





section \<open>Vendor bearer codes\<close>

lemmas bearer_defs = PACKET_BEARER_NONE_def
      PACKET_BEARER_GPRS_def PACKET_BEARER_EGPRS_def PACKET_BEARER_UMTS_def
      PACKET_BEARER_HSUPA_def PACKET_BEARER_HSDPA_def PACKET_BEARER_HSUPA_HSDPA_def
      PACKET_BEARER_EPS_def

lemma huawei_bearer:
  "\<exists>b. huawei_mode_notify (''^MODE:'', AT_Num m # AT_Num sm # r) = [Core_bearer_notify b]
        \<and> 0 \<le> b \<and> b \<le> 7
        \<and> (sm \<notin> {1, 2, 3, 4, 5, 6, 7, 9} \<longrightarrow> b = PACKET_BEARER_NONE)"
  by (simp add: huawei_mode_notify_def g_at_result_iter_next_def bearer_defs)

lemma telit_bearer:
  "\<exists>b. telit_mode_notify (''#PSNT:'', AT_Num nt # r) = [Core_bearer_notify b]
        \<and> 0 \<le> b \<and> b \<le> 7
        \<and> (nt \<notin> {0, 1, 2, 3, 4} \<longrightarrow> b = PACKET_BEARER_NONE)"
  by (simp add: telit_mode_notify_def g_at_result_iter_next_def bearer_defs)

lemma simcom_bearer:
  "\<exists>b. simcom_mode_notify (''+CNSMOD:'', AT_Num stat # r) = [Core_bearer_notify b]
        \<and> 0 \<le> b \<and> b \<le> 7
        \<and> (stat \<notin> {1, 2, 3, 4, 5, 6, 7, 8} \<longrightarrow> b = PACKET_BEARER_NONE)"
  by (simp add: simcom_mode_notify_def g_at_result_iter_next_def bearer_defs)

lemma ublox_bearer:
  "\<exists>b. ublox_ureg_notify (''+UREG:'', AT_Num st # r) = [Core_bearer_notify b]
        \<and> (st = 4 \<longrightarrow> b = PACKET_BEARER_HSDPA)
        \<and> (st = 5 \<longrightarrow> b = PACKET_BEARER_HSUPA)
        \<and> (st = 8 \<longrightarrow> b = PACKET_BEARER_GPRS)
        \<and> (st = 9 \<longrightarrow> b = PACKET_BEARER_EGPRS)
        \<and> (st \<notin> {4, 5, 8, 9} \<longrightarrow> b = st)
        \<and> (0 \<le> st \<and> st \<le> 9 \<longrightarrow> 0 \<le> b \<and> b \<le> 7)"
proof -
  have "0 \<le> st \<and> st \<le> 9 \<longrightarrow> st \<noteq> 8 \<longrightarrow> st \<noteq> 9 \<longrightarrow> st \<le> 7" by arith
  then show ?thesis
    by (simp add: ublox_ureg_notify_def g_at_result_iter_next_def bearer_defs)
qed

text \<open>
  Claim C8, as the code has it. The Huawei, Telit and SIMCom handlers answer every
  status code with a bearer between 0 and 7, and with zero (the none bearer) every code
  their \<^verbatim>\<open>switch\<close> does not list. The u-blox handler answers code 4 with hsdpa
  (5), code 5 with hsupa (4), code 8 with gprs (1), code 9 with edge (2) and every other
  code with the code itself, which for the codes 0 to 9 is a bearer between 0 and 7; a
  code it does not know is handed on as it came.
\<close>

theorem bearer_mapping_per_dialect:
  "(\<exists>b. huawei_mode_notify (''^MODE:'', AT_Num m # AT_Num sm # r) = [Core_bearer_notify b]
        \<and> 0 \<le> b \<and> b \<le> 7
        \<and> (sm \<notin> {1, 2, 3, 4, 5, 6, 7, 9} \<longrightarrow> b = PACKET_BEARER_NONE))
   \<and> (\<exists>b. telit_mode_notify (''#PSNT:'', AT_Num nt # r) = [Core_bearer_notify b]
        \<and> 0 \<le> b \<and> b \<le> 7
        \<and> (nt \<notin> {0, 1, 2, 3, 4} \<longrightarrow> b = PACKET_BEARER_NONE))
   \<and> (\<exists>b. simcom_mode_notify (''+CNSMOD:'', AT_Num stat # r) = [Core_bearer_notify b]
        \<and> 0 \<le> b \<and> b \<le> 7
        \<and> (stat \<notin> {1, 2, 3, 4, 5, 6, 7, 8} \<longrightarrow> b = PACKET_BEARER_NONE))
   \<and> (\<exists>b. ublox_ureg_notify (''+UREG:'', AT_Num st # r) = [Core_bearer_notify b]
        \<and> (st = 4 \<longrightarrow> b = PACKET_BEARER_HSDPA)
        \<and> (st = 5 \<longrightarrow> b = PACKET_BEARER_HSUPA)
        \<and> (st = 8 \<longrightarrow> b = PACKET_BEARER_GPRS)
        \<and> (st = 9 \<longrightarrow> b = PACKET_BEARER_EGPRS)
        \<and> (st \<notin> {4, 5, 8, 9} \<longrightarrow> b = st)
        \<and> (0 \<le> st \<and> st \<le> 9 \<longrightarrow> 0 \<le> b \<and> b \<le> 7))"
  using huawei_bearer [of m sm r] telit_bearer [of nt r] simcom_bearer [of stat r]
    ublox_bearer [of st r]
  by (intro conjI)

text \<open>The statement at one unknown code for each of the first three dialects, and at
  the u-blox code 9.\<close>

theorem bearer_mapping_per_dialect_witness:
  "huawei_mode_notify (''^MODE:'', [AT_Num 5, AT_Num 8]) = [Core_bearer_notify PACKET_BEARER_NONE]
   \<and> telit_mode_notify (''#PSNT:'', [AT_Num 5]) = [Core_bearer_notify PACKET_BEARER_NONE]
   \<and> simcom_mode_notify (''+CNSMOD:'', [AT_Num 9]) = [Core_bearer_notify PACKET_BEARER_NONE]
   \<and> ublox_ureg_notify (''+UREG:'', [AT_Num 9]) = [Core_bearer_notify PACKET_BEARER_EGPRS]"
  using bearer_mapping_per_dialect [of 5 8 "[]" 5 9 9]
  by auto

text \<open>Claim C8 as stated fails for u-blox: the unknown code 42 is reported as bearer
  42, not as zero.\<close>

theorem ublox_unknown_state_counterexample:
  "ublox_ureg_notify (''+UREG:'', [AT_Num 42]) = [Core_bearer_notify 42]
   \<and> (42 :: int) \<noteq> PACKET_BEARER_NONE"
  by (simp add: ublox_ureg_notify_def g_at_result_iter_next_def PACKET_BEARER_NONE_def)

section \<open>The vendor suspend notification\<close>

text \<open>
  Claim C9 asks that a \<^verbatim>\<open>+XDATASTAT\<close> line whose status cannot be read changes
  nothing. The handler branches on its uninitialised local all the same: with a zero
  there it notifies a suspend, with a one a resume, although no status was read.
\<close>

theorem xdatastat_unreadable_status:
  "xdatastat_notify 0 (''+XDATASTAT:'', []) = [Core_suspend_notify GPRS_SUSPENDED_UNKNOWN_CAUSE]
   \<and> xdatastat_notify 1 (''+XDATASTAT:'', [AT_Str ''x'']) = [Core_resume_notify]"
  by (simp add: xdatastat_notify_def g_at_result_iter_next_def)

section \<open>The attach state machine\<close>

lemmas flag_defs = GPRS_FLAG_ATTACHING_def GPRS_FLAG_RECHECK_def GPRS_FLAG_ATTACHED_UPDATE_def

lemma recheck_after_clear_attaching:
  "(f AND NOT GPRS_FLAG_ATTACHING) AND GPRS_FLAG_RECHECK = f AND GPRS_FLAG_RECHECK"
  for f :: "32 word"
  unfolding flag_defs by (rule bit_word_eqI) (auto simp: bit_simps)

lemma recheck_after_set_attaching:
  "(f OR GPRS_FLAG_ATTACHING) AND GPRS_FLAG_RECHECK = f AND GPRS_FLAG_RECHECK"
  for f :: "32 word"
  unfolding flag_defs by (rule bit_word_eqI) (auto simp: bit_simps)

lemma recheck_after_set_attached_update:
  "(f OR GPRS_FLAG_ATTACHED_UPDATE) AND GPRS_FLAG_RECHECK = f AND GPRS_FLAG_RECHECK"
  for f :: "32 word"
  unfolding flag_defs by (rule bit_word_eqI) (auto simp: bit_simps)

lemma recheck_cleared:
  "(f AND NOT GPRS_FLAG_RECHECK) AND GPRS_FLAG_RECHECK = 0"
  for f :: "32 word"
  unfolding flag_defs by (rule bit_word_eqI) (auto simp: bit_simps)

lemma recheck_raised:
  "(f OR GPRS_FLAG_RECHECK) AND GPRS_FLAG_RECHECK \<noteq> 0"
  for f :: "32 word"
proof -
  have "bit ((f OR GPRS_FLAG_RECHECK) AND GPRS_FLAG_RECHECK) 1"
    unfolding flag_defs by (simp add: bit_simps)
  then show ?thesis by auto
qed

lemma attaching_raised:
  "(f OR GPRS_FLAG_ATTACHING) AND GPRS_FLAG_ATTACHING \<noteq> 0"
  for f :: "32 word"
proof -
  have "bit ((f OR GPRS_FLAG_ATTACHING) AND GPRS_FLAG_ATTACHING) 0"
    unfolding flag_defs by (simp add: bit_simps)
  then show ?thesis by auto
qed

lemma flags_release_context: "flags (release_context i g) = flags g"
  by (simp add: release_context_def Let_def split: option.split)

lemma flags_pri_reset_context_settings: "flags (pri_reset_context_settings i g) = flags g"
  by (simp add: pri_reset_context_settings_def Let_def split: option.split)

lemma flags_detach_active_context: "flags (detach_active_context i g) = flags g"
  by (simp add: detach_active_context_def Let_def pri_context_signal_active_def
      flags_release_context flags_pri_reset_context_settings split: option.split)

lemma flags_fold_detach: "flags (fold detach_active_context is g) = flags g"
  by (induction "is" arbitrary: g) (simp_all add: flags_detach_active_context)

lemma flags_detach_active_contexts: "flags (detach_active_contexts g) = flags g"
  by (simp add: detach_active_contexts_def flags_fold_detach)

lemma recheck_gprs_attached_update:
  "flags (gprs_attached_update g) AND GPRS_FLAG_RECHECK = flags g AND GPRS_FLAG_RECHECK"
  by (simp add: gprs_attached_update_def Let_def gprs_set_attached_property_def
      flags_detach_active_contexts recheck_after_set_attached_update)

lemma recheck_ofono_gprs_detached_notify:
  "flags (ofono_gprs_detached_notify g) AND GPRS_FLAG_RECHECK = flags g AND GPRS_FLAG_RECHECK"
  by (simp add: ofono_gprs_detached_notify_def recheck_gprs_attached_update)

lemma recheck_ofono_gprs_status_notify:
  "flags (ofono_gprs_status_notify st g) AND GPRS_FLAG_RECHECK = flags g AND GPRS_FLAG_RECHECK"
  by (simp add: ofono_gprs_status_notify_def Let_def recheck_gprs_attached_update
      recheck_ofono_gprs_detached_notify recheck_after_set_attaching)

lemma netreg_update_off_lte:
  assumes "0 \<le> netreg_status g" and "\<not> on_lte g"
  shows "gprs_netreg_update g =
     (let want = (powered g
                  \<and> (netreg_status g \<in> {NETWORK_REGISTRATION_STATUS_REGISTERED,
                                         NETWORK_REGISTRATION_STATUS_REGISTERED_SMS_EUTRAN}
                     \<or> (roaming_allowed g
                        \<and> netreg_status g \<in> {NETWORK_REGISTRATION_STATUS_ROAMING,
                                              NETWORK_REGISTRATION_STATUS_ROAMING_SMS_EUTRAN})))
      in if want = driver_attached g then g
         else if flags g AND GPRS_FLAG_ATTACHING \<noteq> 0
         then g\<lparr>flags := flags g OR GPRS_FLAG_RECHECK\<rparr>
         else g\<lparr>flags := flags g OR GPRS_FLAG_ATTACHING,
                driver_attached := want,
                driver_calls := driver_calls g @ [Set_attached want]\<rparr>)"
proof -
  define want where "want = (powered g
                  \<and> (netreg_status g \<in> {NETWORK_REGISTRATION_STATUS_REGISTERED,
                                         NETWORK_REGISTRATION_STATUS_REGISTERED_SMS_EUTRAN}
                     \<or> (roaming_allowed g
                        \<and> netreg_status g \<in> {NETWORK_REGISTRATION_STATUS_ROAMING,
                                              NETWORK_REGISTRATION_STATUS_ROAMING_SMS_EUTRAN})))"
  have w: "((netreg_status g = NETWORK_REGISTRATION_STATUS_REGISTERED
            \<or> netreg_status g = NETWORK_REGISTRATION_STATUS_REGISTERED_SMS_EUTRAN
            \<or> roaming_allowed g
               \<and> (netreg_status g = NETWORK_REGISTRATION_STATUS_ROAMING
                  \<or> netreg_status g = NETWORK_REGISTRATION_STATUS_ROAMING_SMS_EUTRAN))
           \<and> powered g) = want"
    unfolding want_def by auto
  have neg: "\<not> netreg_status g < 0" using assms(1) by simp
  have "gprs_netreg_update g =
     (if want = driver_attached g then g
      else if flags g AND GPRS_FLAG_ATTACHING \<noteq> 0
      then g\<lparr>flags := flags g OR GPRS_FLAG_RECHECK\<rparr>
      else g\<lparr>flags := flags g OR GPRS_FLAG_ATTACHING,
             driver_attached := want,
             driver_calls := driver_calls g @ [Set_attached want]\<rparr>)"
    unfolding gprs_netreg_update_def Let_def
    using neg assms(2) by (simp only: if_False w disj_assoc) (auto simp: eq_commute)
  then show ?thesis unfolding want_def Let_def .
qed

lemma registration_status_cb_recheck:
  "registration_status_cb err st g =
     (let g1 = g\<lparr>flags := flags g AND NOT GPRS_FLAG_ATTACHING\<rparr>;
          g2 = (if err = OFONO_ERROR_TYPE_NO_ERROR then ofono_gprs_status_notify st g1
                else gprs_attached_update g1)
      in if flags g AND GPRS_FLAG_RECHECK \<noteq> 0
         then gprs_netreg_update (g2\<lparr>flags := flags g2 AND NOT GPRS_FLAG_RECHECK\<rparr>)
         else g2)"
proof -
  let ?g1 = "g\<lparr>flags := flags g AND NOT GPRS_FLAG_ATTACHING\<rparr>"
  let ?g2 = "if err = OFONO_ERROR_TYPE_NO_ERROR then ofono_gprs_status_notify st ?g1
             else gprs_attached_update ?g1"
  have "flags ?g2 AND GPRS_FLAG_RECHECK = flags ?g1 AND GPRS_FLAG_RECHECK"
    by (simp add: recheck_ofono_gprs_status_notify recheck_gprs_attached_update)
  also have "\<dots> = flags g AND GPRS_FLAG_RECHECK"
    by (simp add: recheck_after_clear_attaching)
  finally have "flags ?g2 AND GPRS_FLAG_RECHECK = flags g AND GPRS_FLAG_RECHECK" .
  then show ?thesis
    unfolding registration_status_cb_def Let_def by simp
qed

text \<open>
  Claim C1. With a known (non-negative) circuit-domain status and off the LTE
  auto-context path, \<^verbatim>\<open>gprs_netreg_update\<close> computes
  \<open>want = powered \<and> (status \<in> {registered, sms-eutran} \<or> (roaming_allowed \<and> status \<in>
  {roaming, roaming-sms-eutran}))\<close>. If \<open>want\<close> equals \<open>driver_attached\<close> the state is
  unchanged. Otherwise, if ATTACHING is set, only RECHECK is raised and no driver call
  is made; else ATTACHING is set, \<open>driver_attached\<close> becomes \<open>want\<close> and exactly one
  \<^verbatim>\<open>set_attached(want)\<close> is issued. The attach callback, in any state \<open>h\<close>, clears
  ATTACHING, feeds the status to the state machine and, when RECHECK was raised, clears
  it and runs \<^verbatim>\<open>gprs_netreg_update\<close> again.
\<close>

theorem netreg_update_attach_machine:
  assumes "0 \<le> netreg_status g" and "\<not> on_lte g"
  shows "(let want = (powered g
                  \<and> (netreg_status g \<in> {NETWORK_REGISTRATION_STATUS_REGISTERED,
                                         NETWORK_REGISTRATION_STATUS_REGISTERED_SMS_EUTRAN}
                     \<or> (roaming_allowed g
                        \<and> netreg_status g \<in> {NETWORK_REGISTRATION_STATUS_ROAMING,
                                              NETWORK_REGISTRATION_STATUS_ROAMING_SMS_EUTRAN})));
              g' = gprs_netreg_update g
          in (want = driver_attached g \<longrightarrow> g' = g)
             \<and> (want \<noteq> driver_attached g \<and> flags g AND GPRS_FLAG_ATTACHING \<noteq> 0
                  \<longrightarrow> g' = g\<lparr>flags := flags g OR GPRS_FLAG_RECHECK\<rparr>
                      \<and> flags g' AND GPRS_FLAG_RECHECK \<noteq> 0
                      \<and> driver_calls g' = driver_calls g)
             \<and> (want \<noteq> driver_attached g \<and> flags g AND GPRS_FLAG_ATTACHING = 0
                  \<longrightarrow> g' = g\<lparr>flags := flags g OR GPRS_FLAG_ATTACHING,
                             driver_attached := want,
                             driver_calls := driver_calls g @ [Set_attached want]\<rparr>
                      \<and> flags g' AND GPRS_FLAG_ATTACHING \<noteq> 0))
   \<and> registration_status_cb err st h =
       (let h1 = h\<lparr>flags := flags h AND NOT GPRS_FLAG_ATTACHING\<rparr>;
            h2 = (if err = OFONO_ERROR_TYPE_NO_ERROR then ofono_gprs_status_notify st h1
                  else gprs_attached_update h1);
            h3 = h2\<lparr>flags := flags h2 AND NOT GPRS_FLAG_RECHECK\<rparr>
        in if flags h AND GPRS_FLAG_RECHECK \<noteq> 0 then gprs_netreg_update h3 else h2)
   \<and> (flags h AND NOT GPRS_FLAG_RECHECK) AND GPRS_FLAG_RECHECK = 0"
proof -
  have a: "gprs_netreg_update g =
     (let want = (powered g
                  \<and> (netreg_status g \<in> {NETWORK_REGISTRATION_STATUS_REGISTERED,
                                         NETWORK_REGISTRATION_STATUS_REGISTERED_SMS_EUTRAN}
                     \<or> (roaming_allowed g
                        \<and> netreg_status g \<in> {NETWORK_REGISTRATION_STATUS_ROAMING,
                                              NETWORK_REGISTRATION_STATUS_ROAMING_SMS_EUTRAN})))
      in if want = driver_attached g then g
         else if flags g AND GPRS_FLAG_ATTACHING \<noteq> 0
         then g\<lparr>flags := flags g OR GPRS_FLAG_RECHECK\<rparr>
         else g\<lparr>flags := flags g OR GPRS_FLAG_ATTACHING,
                driver_attached := want,
                driver_calls := driver_calls g @ [Set_attached want]\<rparr>)"
    using assms by (rule netreg_update_off_lte)
  have first: "(let want = (powered g
                  \<and> (netreg_status g \<in> {NETWORK_REGISTRATION_STATUS_REGISTERED,
                                         NETWORK_REGISTRATION_STATUS_REGISTERED_SMS_EUTRAN}
                     \<or> (roaming_allowed g
                        \<and> netreg_status g \<in> {NETWORK_REGISTRATION_STATUS_ROAMING,
                                              NETWORK_REGISTRATION_STATUS_ROAMING_SMS_EUTRAN})));
              g' = gprs_netreg_update g
          in (want = driver_attached g \<longrightarrow> g' = g)
             \<and> (want \<noteq> driver_attached g \<and> flags g AND GPRS_FLAG_ATTACHING \<noteq> 0
                  \<longrightarrow> g' = g\<lparr>flags := flags g OR GPRS_FLAG_RECHECK\<rparr>
                      \<and> flags g' AND GPRS_FLAG_RECHECK \<noteq> 0
                      \<and> driver_calls g' = driver_calls g)
             \<and> (want \<noteq> driver_attached g \<and> flags g AND GPRS_FLAG_ATTACHING = 0
                  \<longrightarrow> g' = g\<lparr>flags := flags g OR GPRS_FLAG_ATTACHING,
                             driver_attached := want,
                             driver_calls := driver_calls g @ [Set_attached want]\<rparr>
                      \<and> flags g' AND GPRS_FLAG_ATTACHING \<noteq> 0))"
    unfolding a Let_def using recheck_raised [of "flags g"] attaching_raised [of "flags g"]
    by simp
  have second: "registration_status_cb err st h =
       (let h1 = h\<lparr>flags := flags h AND NOT GPRS_FLAG_ATTACHING\<rparr>;
            h2 = (if err = OFONO_ERROR_TYPE_NO_ERROR then ofono_gprs_status_notify st h1
                  else gprs_attached_update h1);
            h3 = h2\<lparr>flags := flags h2 AND NOT GPRS_FLAG_RECHECK\<rparr>
        in if flags h AND GPRS_FLAG_RECHECK \<noteq> 0 then gprs_netreg_update h3 else h2)"
    using registration_status_cb_recheck [of err st h] unfolding Let_def .
  from first second recheck_cleared [of "flags h"] show ?thesis by blast
qed

text \<open>The first attach after the network has registered: one \<^verbatim>\<open>set_attached(true)\<close>.\<close>

theorem netreg_update_attach_machine_witness:
  "0 \<le> netreg_status g_registered \<and> \<not> on_lte g_registered
   \<and> gprs_netreg_update g_registered
       = g_registered\<lparr>flags := flags g_registered OR GPRS_FLAG_ATTACHING,
                       driver_attached := True,
                       driver_calls := [Set_attached True]\<rparr>"
proof -
  have h1: "0 \<le> netreg_status g_registered"
    by (simp add: g_registered_def gprs_create_def NETWORK_REGISTRATION_STATUS_REGISTERED_def)
  have h2: "\<not> on_lte g_registered"
    by (simp add: g_registered_def gprs_create_def on_lte_def ACCESS_TECHNOLOGY_EUTRAN_def)
  have f: "flags g_registered AND GPRS_FLAG_ATTACHING = 0"
    by (simp add: g_registered_def gprs_create_def)
  have d: "\<not> driver_attached g_registered" "powered g_registered"
    "netreg_status g_registered = NETWORK_REGISTRATION_STATUS_REGISTERED"
    "driver_calls g_registered = []"
    by (simp_all add: g_registered_def gprs_create_def)
  show ?thesis
    using netreg_update_attach_machine [OF h1 h2, of OFONO_ERROR_TYPE_NO_ERROR 1 g_registered]
      h1 h2 f d
    by (simp add: Let_def)
qed

section \<open>Activating a context over the bus\<close>

text \<open>
  Claim C2, as the code orders its checks. \<^verbatim>\<open>SetProperty("Active", v)\<close> is rejected
  with busy when the manager or the context has a pending request. Otherwise it succeeds
  at once, with no driver call and no change of state, when \<open>v\<close> is the context's
  current \<open>active\<close> value. Otherwise it is rejected with not-attached when \<open>v\<close> is true
  and \<open>attached\<close> is false. Otherwise it is rejected with attach-in-progress when
  ATTACHING is set. No rejection changes the state.
\<close>

theorem set_active_rejections:
  "(pending g \<noteq> None \<or> ctx_pending (contexts g ! i) \<noteq> None
      \<longrightarrow> pri_set_property_Active msg (DBUS_BOOLEAN v) i g = (Error E_busy, g))
   \<and> (pending g = None \<and> ctx_pending (contexts g ! i) = None
        \<and> ctx_active (contexts g ! i) = v
      \<longrightarrow> pri_set_property_Active msg (DBUS_BOOLEAN v) i g = (Method_return, g))
   \<and> (pending g = None \<and> ctx_pending (contexts g ! i) = None
        \<and> ctx_active (contexts g ! i) \<noteq> v \<and> v \<and> \<not> attached g
      \<longrightarrow> pri_set_property_Active msg (DBUS_BOOLEAN v) i g = (Error E_not_attached, g))
   \<and> (pending g = None \<and> ctx_pending (contexts g ! i) = None
        \<and> ctx_active (contexts g ! i) \<noteq> v \<and> (attached g \<or> \<not> v)
        \<and> flags g AND GPRS_FLAG_ATTACHING \<noteq> 0
      \<longrightarrow> pri_set_property_Active msg (DBUS_BOOLEAN v) i g = (Error E_attach_in_progress, g))"
  by (simp add: pri_set_property_Active_def Let_def)

text \<open>One request for each of the four outcomes.\<close>

theorem set_active_rejections_witness:
  "pri_set_property_Active 7 (DBUS_BOOLEAN True) 0 (g_sample\<lparr>pending := Some 3\<rparr>)
     = (Error E_busy, g_sample\<lparr>pending := Some 3\<rparr>)
   \<and> pri_set_property_Active 7 (DBUS_BOOLEAN False) 0 g_sample = (Method_return, g_sample)
   \<and> pri_set_property_Active 7 (DBUS_BOOLEAN True) 0 g_sample = (Error E_not_attached, g_sample)
   \<and> pri_set_property_Active 7 (DBUS_BOOLEAN True) 0
        (g_sample\<lparr>attached := True, flags := GPRS_FLAG_ATTACHING\<rparr>)
     = (Error E_attach_in_progress, g_sample\<lparr>attached := True, flags := GPRS_FLAG_ATTACHING\<rparr>)"
  using set_active_rejections [of "g_sample\<lparr>pending := Some 3\<rparr>" 0 7 True]
    set_active_rejections [of g_sample 0 7 False]
    set_active_rejections [of g_sample 0 7 True]
    set_active_rejections [of "g_sample\<lparr>attached := True, flags := GPRS_FLAG_ATTACHING\<rparr>" 0 7 True]
  by (simp add: g_sample_eval gprs_create_def GPRS_FLAG_ATTACHING_def)

text \<open>Claim C2 as stated fails: while ATTACHING is set, a request to activate on a
  manager that is not attached is answered not-attached, and a request for the value
  the context already has succeeds; neither is answered attach-in-progress.\<close>

theorem set_active_attaching_counterexample:
  "flags (g_sample\<lparr>flags := GPRS_FLAG_ATTACHING\<rparr>) AND GPRS_FLAG_ATTACHING \<noteq> 0
   \<and> fst (pri_set_property_Active 7 (DBUS_BOOLEAN True) 0 (g_sample\<lparr>flags := GPRS_FLAG_ATTACHING\<rparr>))
       = Error E_not_attached
   \<and> fst (pri_set_property_Active 7 (DBUS_BOOLEAN False) 0 (g_sample\<lparr>flags := GPRS_FLAG_ATTACHING\<rparr>))
       = Method_return"
  by (simp add: pri_set_property_Active_def Let_def g_sample_eval gprs_create_def
      GPRS_FLAG_ATTACHING_def)

section \<open>Suspend and resume\<close>

lemma update_suspended_property_effect:
  "suspended (update_suspended_property b g) = b
   \<and> attached (update_suspended_property b g) = attached g
   \<and> suspend_timeout (update_suspended_property b g) = 0
   \<and> signals (update_suspended_property b g)
       = signals g @ (if attached g \<and> suspended g \<noteq> b
                      then [PropertyChanged (atom_path g) ''Suspended'' (DBUS_BOOLEAN b)] else [])"
  by (simp add: update_suspended_property_def Let_def)

text \<open>
  Claim C3, as the code has it. A suspend notification with an immediate cause, and the
  expiry of the debounce timer, set \<open>suspended\<close> whatever \<open>attached\<close> is and leave
  \<open>attached\<close> alone; the other causes only arm the timer. What depends on \<open>attached\<close>
  is visibility: the change is signalled as \<^verbatim>\<open>Suspended\<close> only while attached, and
  \<^verbatim>\<open>GetProperties\<close> lists \<^verbatim>\<open>Suspended\<close> only while attached.
\<close>

theorem suspended_hidden_unless_attached:
  "(\<forall>cause \<in> {GPRS_SUSPENDED_DETACHED, GPRS_SUSPENDED_CALL, GPRS_SUSPENDED_NO_COVERAGE}.
       suspended (ofono_gprs_suspend_notify n cause g)
       \<and> attached (ofono_gprs_suspend_notify n cause g) = attached g
       \<and> signals (ofono_gprs_suspend_notify n cause g)
           = signals g @ (if attached g \<and> \<not> suspended g
                          then [PropertyChanged (atom_path g) ''Suspended'' (DBUS_BOOLEAN True)]
                          else []))
   \<and> (\<forall>cause \<in> {GPRS_SUSPENDED_SIGNALLING, GPRS_SUSPENDED_UNKNOWN_CAUSE}.
       ofono_gprs_suspend_notify n cause g = g\<lparr>suspend_timeout := n\<rparr>)
   \<and> suspended (suspend_timeout_cb g)
   \<and> attached (suspend_timeout_cb g) = attached g
   \<and> signals (suspend_timeout_cb g)
       = signals g @ (if attached g \<and> \<not> suspended g
                      then [PropertyChanged (atom_path g) ''Suspended'' (DBUS_BOOLEAN True)]
                      else [])
   \<and> map_of (gprs_get_properties g) ''Suspended''
       = (if attached g then Some (DBUS_BOOLEAN (suspended g)) else None)"
proof -
  have p: "map_of (gprs_get_properties g) ''Suspended''
       = (if attached g then Some (DBUS_BOOLEAN (suspended g)) else None)"
    by (simp add: gprs_get_properties_def)
  have t: "suspended (suspend_timeout_cb g)
   \<and> attached (suspend_timeout_cb g) = attached g
   \<and> signals (suspend_timeout_cb g)
       = signals g @ (if attached g \<and> \<not> suspended g
                      then [PropertyChanged (atom_path g) ''Suspended'' (DBUS_BOOLEAN True)]
                      else [])"
    using update_suspended_property_effect [of True "g\<lparr>suspend_timeout := 0\<rparr>"]
    by (simp add: suspend_timeout_cb_def)
  show ?thesis
    using p t update_suspended_property_effect [of True g] by simp
qed

text \<open>On a manager fresh from its creation: a call suspends it silently, a signalling
  cause arms the timer.\<close>

theorem suspended_hidden_unless_attached_witness:
  "suspended (ofono_gprs_suspend_notify 5 GPRS_SUSPENDED_CALL (gprs_create drv_sample ''/modem''))
   \<and> signals (ofono_gprs_suspend_notify 5 GPRS_SUSPENDED_CALL (gprs_create drv_sample ''/modem'')) = []
   \<and> suspend_timeout (ofono_gprs_suspend_notify 5 GPRS_SUSPENDED_SIGNALLING
        (gprs_create drv_sample ''/modem'')) = 5"
  using suspended_hidden_unless_attached [of 5 "gprs_create drv_sample ''/modem''"]
  by (simp add: gprs_create_def)

text \<open>Claim C3 as stated fails: on a manager that is not attached, a suspend with cause
  call, and the expiry of the timer a signalling cause armed, both leave \<open>suspended\<close>
  set while \<open>attached\<close> is false.\<close>

theorem suspended_while_detached_counterexample:
  "suspended (ofono_gprs_suspend_notify 5 GPRS_SUSPENDED_CALL (gprs_create drv_sample ''/modem''))
   \<and> \<not> attached (ofono_gprs_suspend_notify 5 GPRS_SUSPENDED_CALL (gprs_create drv_sample ''/modem''))
   \<and> suspended (suspend_timeout_cb
        (ofono_gprs_suspend_notify 5 GPRS_SUSPENDED_SIGNALLING (gprs_create drv_sample ''/modem'')))
   \<and> \<not> attached (suspend_timeout_cb
        (ofono_gprs_suspend_notify 5 GPRS_SUSPENDED_SIGNALLING (gprs_create drv_sample ''/modem'')))"
  by (simp add: update_suspended_property_def suspend_timeout_cb_def Let_def gprs_create_def)

section \<open>The Telit spurious detach\<close>

text \<open>
  Claim C6, as the code has it. On a Telit modem that is attached and has no re-attach
  outstanding, an unsolicited registration status 0 issues exactly one silent
  \<^verbatim>\<open>AT+CGATT=1\<close>, reaches the core not at all and marks the re-attach as outstanding.
  While it is outstanding the packet-event detach, \<^verbatim>\<open>NW DETACH\<close> as well as
  \<^verbatim>\<open>ME DETACH\<close>, is ignored, and the next registration update, whatever its status,
  issues no re-attach, is handed to the core and clears the mark, which puts the dialect
  back where it started.
\<close>

theorem telit_reattach_once:
  assumes "vendor gd = OFONO_VENDOR_TELIT" and "gd_attached gd \<noteq> 0"
    and "\<not> telit_try_reattach gd"
  shows "cgreg_notify (Some 0) gd = (gd\<lparr>telit_try_reattach := True\<rparr>, [Chat_send ''AT+CGATT=1''])
   \<and> cgev_notify x (''+CGEV:'', [AT_Str ''NW DETACH'']) (gd\<lparr>telit_try_reattach := True\<rparr>)
       = (gd\<lparr>telit_try_reattach := True\<rparr>, [])
   \<and> cgev_notify x (''+CGEV:'', [AT_Str ''ME DETACH'']) (gd\<lparr>telit_try_reattach := True\<rparr>)
       = (gd\<lparr>telit_try_reattach := True\<rparr>, [])
   \<and> cgreg_notify (Some st) (gd\<lparr>telit_try_reattach := True\<rparr>) = (gd, [Core_status_notify st])"
  using assms
  by (simp add: cgreg_notify_def cgev_notify_def g_at_result_iter_next_def)

text \<open>Spurious detach, then the delayed re-register.\<close>

theorem telit_reattach_once_witness:
  "vendor telit_sample = OFONO_VENDOR_TELIT \<and> gd_attached telit_sample \<noteq> 0
   \<and> \<not> telit_try_reattach telit_sample
   \<and> snd (cgreg_notify (Some 0) telit_sample) = [Chat_send ''AT+CGATT=1'']
   \<and> cgreg_notify (Some 1) (fst (cgreg_notify (Some 0) telit_sample))
       = (telit_sample, [Core_status_notify 1])"
  using telit_reattach_once [of telit_sample 0 1]
  by (simp add: telit_sample_def)

text \<open>Claim C6 as stated fails: a second status 0 right after the first is not ignored
  but handed to the core, and a second status 0 after the re-register issues a further
  re-attach.\<close>

theorem telit_second_detach_counterexample:
  "snd (cgreg_notify (Some 0) (fst (cgreg_notify (Some 0) telit_sample)))
     = [Core_status_notify 0]
   \<and> snd (cgreg_notify (Some 0)
        (fst (cgreg_notify (Some 1) (fst (cgreg_notify (Some 0) telit_sample)))))
     = [Chat_send ''AT+CGATT=1'']"
  by (simp add: cgreg_notify_def telit_sample_def)

section \<open>Allocating ids\<close>

text \<open>
  Claim C7, as the code has it. A cid allocated at context activation
  (\<^verbatim>\<open>assign_context\<close> called without a cid) is the minimum unused id of \<open>used_cids\<close>.
  The id of a new context (\<^verbatim>\<open>add_context\<close>, \<^verbatim>\<open>provision_context\<close>) is
  \<open>next_context_id\<close>: an unused id of \<open>used_pids\<close> that is the minimum unused one
  while \<open>last_context_id\<close> is zero, and otherwise the first unused id at or above
  \<open>last_context_id\<close>, or, when every id from there up is taken, the minimum unused one.
\<close>

theorem id_allocation:
  "(assign_context i 0 g = Some g' \<and> i < length (contexts g) \<longrightarrow>
      (\<exists>s. used_cids g = Some s
         \<and> pc_cid (ctx_context (contexts g' ! i)) = l_uintset_find_unused_min s
         \<and> used_cids g' = Some (l_uintset_put s (l_uintset_find_unused_min s))
         \<and> umin s \<le> l_uintset_find_unused_min s
         \<and> l_uintset_find_unused_min s \<le> umax s
         \<and> l_uintset_find_unused_min s \<notin> members s
         \<and> list_all (\<lambda>m. m \<in> members s) [umin s ..< l_uintset_find_unused_min s]))
   \<and> (add_context cm name0 t g = (g1, Some k) \<longrightarrow>
        ctx_id (contexts g1 ! k) = next_context_id g
        \<and> used_pids g1 = l_uintset_put (used_pids g) (next_context_id g)
        \<and> next_context_id g \<le> umax (used_pids g))
   \<and> (length (contexts (provision_context cm ap g)) \<noteq> length (contexts g) \<longrightarrow>
        ctx_id (last (contexts (provision_context cm ap g))) = next_context_id g)
   \<and> (next_context_id g \<le> umax (used_pids g) \<longrightarrow>
        umin (used_pids g) \<le> next_context_id g
        \<and> next_context_id g \<notin> members (used_pids g)
        \<and> (if last_context_id g = 0
            then list_all (\<lambda>m. m \<in> members (used_pids g))
                   [umin (used_pids g) ..< next_context_id g]
            else if last_context_id g \<le> next_context_id g
            then list_all (\<lambda>m. m \<in> members (used_pids g))
                   [last_context_id g ..< next_context_id g]
            else list_all (\<lambda>m. m \<in> members (used_pids g))
                   [last_context_id g ..< Suc (umax (used_pids g))]
                 \<and> list_all (\<lambda>m. m \<in> members (used_pids g))
                   [umin (used_pids g) ..< next_context_id g]))"
proof -
  have a: "assign_context i 0 g = Some g' \<and> i < length (contexts g) \<longrightarrow>
      (\<exists>s. used_cids g = Some s
         \<and> pc_cid (ctx_context (contexts g' ! i)) = l_uintset_find_unused_min s
         \<and> used_cids g' = Some (l_uintset_put s (l_uintset_find_unused_min s))
         \<and> umin s \<le> l_uintset_find_unused_min s
         \<and> l_uintset_find_unused_min s \<le> umax s
         \<and> l_uintset_find_unused_min s \<notin> members s
         \<and> list_all (\<lambda>m. m \<in> members s) [umin s ..< l_uintset_find_unused_min s])"
  proof
    assume h: "assign_context i 0 g = Some g' \<and> i < length (contexts g)"
    from assign_context_Some [of i 0 g g'] h
    obtain s where s: "used_cids g = Some s"
      and c: "l_uintset_find_unused_min s \<le> umax s"
        "used_cids g' = Some (l_uintset_put s (l_uintset_find_unused_min s))"
        "pc_cid (ctx_context (contexts g' ! i)) = l_uintset_find_unused_min s"
      by (auto simp: Let_def)
    from find_unused_min_least [OF c(1)] s c show "\<exists>s. used_cids g = Some s
         \<and> pc_cid (ctx_context (contexts g' ! i)) = l_uintset_find_unused_min s
         \<and> used_cids g' = Some (l_uintset_put s (l_uintset_find_unused_min s))
         \<and> umin s \<le> l_uintset_find_unused_min s
         \<and> l_uintset_find_unused_min s \<le> umax s
         \<and> l_uintset_find_unused_min s \<notin> members s
         \<and> list_all (\<lambda>m. m \<in> members s) [umin s ..< l_uintset_find_unused_min s]"
      by simp
  qed
  have b: "add_context cm name0 t g = (g1, Some k) \<longrightarrow>
        ctx_id (contexts g1 ! k) = next_context_id g
        \<and> used_pids g1 = l_uintset_put (used_pids g) (next_context_id g)
        \<and> next_context_id g \<le> umax (used_pids g)"
    using add_context_Some [of cm name0 t g g1 k] by simp
  from a b provision_context_id [of cm ap g] next_context_id_unused [of g]
  show ?thesis by blast
qed

text \<open>On the registered manager with one binding: the first activation takes cid 1; the
  next context, added or provisioned, takes id 2.\<close>

theorem id_allocation_witness:
  "(\<exists>g'. assign_context 0 0 g_driver = Some g' \<and> 0 < length (contexts g_driver)
         \<and> pc_cid (ctx_context (contexts g' ! 0)) = 1)
   \<and> (\<exists>g1. add_context common_ofono None OFONO_GPRS_CONTEXT_TYPE_INTERNET g_driver = (g1, Some 1)
         \<and> ctx_id (contexts g1 ! 1) = 2)
   \<and> length (contexts (provision_context common_ofono ap_mms_sample g_driver))
       \<noteq> length (contexts g_driver)
   \<and> ctx_id (last (contexts (provision_context common_ofono ap_mms_sample g_driver))) = 2
   \<and> next_context_id g_driver \<le> umax (used_pids g_driver)
   \<and> next_context_id g_driver = 2"
proof -
  obtain g' where a: "assign_context 0 0 g_driver = Some g'"
    using assign_g_driver by blast
  have "l_uintset_find_unused_min \<lparr>umin = 1, umax = 255, members = {}\<rparr> = 1"
    using find_unused_min_first [of "\<lparr>umin = 1, umax = 255, members = {}\<rparr>"] by simp
  then have m: "l_uintset_find_unused_min \<lparr>umin = Suc 0, umax = 255, members = {}\<rparr> = Suc 0"
    by simp
  have c: "pri_context_create None OFONO_GPRS_CONTEXT_TYPE_INTERNET
      = Some (the (pri_context_create None OFONO_GPRS_CONTEXT_TYPE_INTERNET))"
    by (simp add: pri_context_create_def)
  obtain g1 where b: "add_context common_ofono None OFONO_GPRS_CONTEXT_TYPE_INTERNET g_driver
      = (g1, Some 1)"
    using add_context_ok [of g_driver "None" OFONO_GPRS_CONTEXT_TYPE_INTERNET _ common_ofono, OF _ _ c]
    by (simp add: g_driver_fields next_context_id_g_driver)
  from id_allocation [of 0 g_driver g' common_ofono None OFONO_GPRS_CONTEXT_TYPE_INTERNET g1 1
      ap_mms_sample]
    a b provision_g_driver next_context_id_g_driver m
  show ?thesis
    by (simp add: g_driver_fields)
qed

text \<open>Claim C7 as stated fails for \<open>used_pids\<close>: after the default context (id 1), a
  second context (id 2) and the removal of the first, the next context gets id 3 although
  id 1 is the minimum unused id.\<close>

theorem pid_not_minimum_counterexample:
  "(let g2 = snd (gprs_add_context common_ofono [DBUS_STRING ''internet''] g_sample);
        g3 = remove_non_active_context 0 g2;
        g4 = snd (gprs_add_context common_ofono [DBUS_STRING ''internet''] g3)
    in map ctx_id (contexts g3) = [2] \<and> members (used_pids g3) = {2}
       \<and> l_uintset_find_unused_min (used_pids g3) = 1
       \<and> map ctx_id (contexts g4) = [2, 3])"
proof -
  define g2 where "g2 = snd (gprs_add_context common_ofono [DBUS_STRING ''internet''] g_sample)"
  define g3 where "g3 = remove_non_active_context 0 g2"
  define g4 where "g4 = snd (gprs_add_context common_ofono [DBUS_STRING ''internet''] g3)"
  have b: "dbus_register_ok g_sample" "settings g_sample = None"
    "used_pids g_sample = \<lparr>umin = 1, umax = 256, members = {1}\<rparr>" "last_context_id g_sample = 1"
    "map ctx_id (contexts g_sample) = [1]"
    by (simp_all add: g_sample_eval gprs_create_def MAX_CONTEXTS_def)
  have n1: "next_context_id g_sample = 2"
    using find_unused_after_start [of "used_pids g_sample" 1]
    by (simp add: next_context_id_def b)
  have g2: "dbus_register_ok g2" "settings g2 = None"
    "used_pids g2 = \<lparr>umin = 1, umax = 256, members = {1, 2}\<rparr>" "last_context_id g2 = 2"
    "map ctx_id (contexts g2) = [1, 2]"
    using gprs_add_context_internet [of g_sample common_ofono] b n1
    unfolding g2_def by (auto simp: l_uintset_put_def)
  have g3: "dbus_register_ok g3" "settings g3 = None"
    "used_pids g3 = \<lparr>umin = 1, umax = 256, members = {2}\<rparr>" "last_context_id g3 = 2"
    "map ctx_id (contexts g3) = [2]"
  proof -
    from g2(5) obtain c1 c2 where cs: "contexts g2 = [c1, c2]" "ctx_id c1 = 1" "ctx_id c2 = 2"
      by (auto simp: map_eq_Cons_conv)
    then show "dbus_register_ok g3" "settings g3 = None"
      "used_pids g3 = \<lparr>umin = 1, umax = 256, members = {2}\<rparr>" "last_context_id g3 = 2"
      "map ctx_id (contexts g3) = [2]"
      unfolding g3_def remove_non_active_context_def Let_def using g2
      by (auto simp: l_uintset_take_def)
  qed
  have m3: "l_uintset_find_unused_min (used_pids g3) = 1"
    using find_unused_min_first [of "used_pids g3"] by (simp add: g3)
  have n3: "next_context_id g3 = 3"
    using find_unused_after_start [of "used_pids g3" 2]
    by (simp add: next_context_id_def g3)
  have g4: "map ctx_id (contexts g4) = [2, 3]"
    using gprs_add_context_internet [of g3 common_ofono] g3 n3
    unfolding g4_def by simp
  from g3 m3 g4 show ?thesis
    unfolding g2_def g3_def g4_def Let_def by simp
qed

section \<open>The auto-activation report\<close>

lemma first_index_tiers:
  assumes "\<And>x. E x \<Longrightarrow> P x" and "\<And>x. N x = (P x \<and> \<not> E x)"
    and "\<forall>j. (case first_index N xs of Some i \<Rightarrow> Some i | None \<Rightarrow> first_index E xs) = Some j
              \<longrightarrow> list_all (\<lambda>x. \<not> E x) (take j xs)"
  shows "(case first_index P xs of Some i \<Rightarrow> Some i | None \<Rightarrow> first_index E xs)
       = (case first_index N xs of Some i \<Rightarrow> Some i | None \<Rightarrow> first_index E xs)"
  using assms(3)
proof (induction xs)
  case Nil
  show ?case by simp
next
  case (Cons x xs)
  show ?case
  proof (cases "P x")
    case True
    show ?thesis
    proof (cases "E x")
      case e: True
      then have n: "\<not> N x" by (simp add: assms(2))
      have "first_index N xs = None"
      proof (rule ccontr)
        assume "first_index N xs \<noteq> None"
        then obtain i where i: "first_index N xs = Some i" by auto
        with n Cons.prems have "list_all (\<lambda>x. \<not> E x) (take (Suc i) (x # xs))" by simp
        with e show False by simp
      qed
      with True e n show ?thesis by simp
    next
      case False
      with True have "N x" by (simp add: assms(2))
      with True show ?thesis by simp
    qed
  next
    case False
    then have e: "\<not> E x" and n: "\<not> N x" using assms(1) [of x] by (auto simp: assms(2))
    have "\<forall>j. (case first_index N xs of Some i \<Rightarrow> Some i | None \<Rightarrow> first_index E xs) = Some j
              \<longrightarrow> list_all (\<lambda>x. \<not> E x) (take j xs)"
    proof (intro allI impI)
      fix j
      assume "(case first_index N xs of Some i \<Rightarrow> Some i | None \<Rightarrow> first_index E xs) = Some j"
      with e n have "(case first_index N (x # xs) of Some i \<Rightarrow> Some i
                      | None \<Rightarrow> first_index E (x # xs)) = Some (Suc j)"
        by (simp split: option.splits)
      with Cons.prems have "list_all (\<lambda>x. \<not> E x) (take (Suc j) (x # xs))" by blast
      then show "list_all (\<lambda>x. \<not> E x) (take j xs)" by simp
    qed
    from Cons.IH [OF this] False e n show ?thesis
      by (simp split: option.splits)
  qed
qed

lemma find_usable_context_as_spec:
  assumes "\<forall>j. find_usable_context_spec g r = Some j
             \<longrightarrow> list_all (\<lambda>c. pc_apn (ctx_context c) \<noteq> []) (take j (contexts g))"
  shows "find_usable_context g r = find_usable_context_spec g r"
  unfolding find_usable_context_def find_usable_context_spec_def
proof (rule first_index_tiers)
  show "pc_apn (ctx_context x) = [] \<Longrightarrow> prefix (pc_apn (ctx_context x)) r" for x by simp
  show "(pc_apn (ctx_context x) \<noteq> [] \<and> prefix (pc_apn (ctx_context x)) r)
        = (prefix (pc_apn (ctx_context x)) r \<and> \<not> pc_apn (ctx_context x) = [])" for x by auto
  show "\<forall>j. (case first_index (\<lambda>c. pc_apn (ctx_context c) \<noteq> []
                              \<and> prefix (pc_apn (ctx_context c)) r) (contexts g) of
              Some i \<Rightarrow> Some i
            | None \<Rightarrow> first_index (\<lambda>c. pc_apn (ctx_context c) = []) (contexts g)) = Some j
          \<longrightarrow> list_all (\<lambda>x. \<not> pc_apn (ctx_context x) = []) (take j (contexts g))"
    using assms unfolding find_usable_context_spec_def by simp
qed

lemma find_usable_context_spec_Some:
  assumes "find_usable_context_spec g r = Some j"
  shows "j < length (contexts g)
     \<and> (if list_ex (\<lambda>c. pc_apn (ctx_context c) \<noteq> [] \<and> prefix (pc_apn (ctx_context c)) r)
              (contexts g)
        then pc_apn (ctx_context (contexts g ! j)) \<noteq> []
             \<and> prefix (pc_apn (ctx_context (contexts g ! j))) r
             \<and> list_all (\<lambda>c. \<not> (pc_apn (ctx_context c) \<noteq> []
                                \<and> prefix (pc_apn (ctx_context c)) r)) (take j (contexts g))
        else pc_apn (ctx_context (contexts g ! j)) = []
             \<and> list_all (\<lambda>c. pc_apn (ctx_context c) \<noteq> []) (take j (contexts g)))"
proof (cases "first_index (\<lambda>c. pc_apn (ctx_context c) \<noteq> []
                              \<and> prefix (pc_apn (ctx_context c)) r) (contexts g)")
  case (Some i)
  with assms have ij: "i = j" by (simp add: find_usable_context_spec_def)
  from first_index_Some [OF Some] ij
  have j: "j < length (contexts g)"
    and m: "pc_apn (ctx_context (contexts g ! j)) \<noteq> []
            \<and> prefix (pc_apn (ctx_context (contexts g ! j))) r"
    and b: "list_all (\<lambda>c. \<not> (pc_apn (ctx_context c) \<noteq> []
                                \<and> prefix (pc_apn (ctx_context c)) r)) (take j (contexts g))"
    by simp_all
  from j m have "list_ex (\<lambda>c. pc_apn (ctx_context c) \<noteq> [] \<and> prefix (pc_apn (ctx_context c)) r)
              (contexts g)"
    unfolding list_ex_iff using nth_mem [OF j] by blast
  with j m b show ?thesis by simp
next
  case None
  with assms have e: "first_index (\<lambda>c. pc_apn (ctx_context c) = []) (contexts g) = Some j"
    by (simp add: find_usable_context_spec_def)
  from first_index_None [OF None]
  have "\<not> list_ex (\<lambda>c. pc_apn (ctx_context c) \<noteq> [] \<and> prefix (pc_apn (ctx_context c)) r)
              (contexts g)"
    unfolding list_ex_iff list_all_iff by blast
  with first_index_Some [OF e] show ?thesis by simp
qed

lemma find_usable_context_Some:
  assumes "find_usable_context g r = Some i"
  shows "i < length (contexts g)"
proof (cases "first_index (\<lambda>c. prefix (pc_apn (ctx_context c)) r) (contexts g)")
  case (Some j)
  with assms have "i = j" by (simp add: find_usable_context_def)
  with first_index_Some [OF Some] show ?thesis by simp
next
  case None
  with assms have e: "first_index (\<lambda>c. pc_apn (ctx_context c) = []) (contexts g) = Some i"
    by (simp add: find_usable_context_def)
  from first_index_Some [OF e] show ?thesis by simp
qed

lemma find_usable_context_None:
  "find_usable_context g r = None
   \<Longrightarrow> list_all (\<lambda>c. pc_apn (ctx_context c) \<noteq> [] \<and> \<not> prefix (pc_apn (ctx_context c)) r)
         (contexts g)"
proof -
  assume "find_usable_context g r = None"
  then have "first_index (\<lambda>c. prefix (pc_apn (ctx_context c)) r) (contexts g) = None"
    by (simp add: find_usable_context_def split: option.splits)
  from first_index_None [OF this] show ?thesis
    unfolding list_all_iff by auto
qed

lemma add_context_fresh:
  assumes "add_context cm (Some r) t g = (g1, Some i)"
  shows "ctx_name (contexts g1 ! i) = r \<and> pc_apn (ctx_context (contexts g1 ! i)) = []
     \<and> \<not> ctx_active (contexts g1 ! i)
     \<and> driver_calls g1 = driver_calls g \<and> context_drivers g1 = context_drivers g
     \<and> used_cids g1 = used_cids g"
proof -
  have le: "\<not> next_context_id g > l_uintset_get_max (used_pids g)"
    using assms by (auto simp: add_context_def Let_def)
  have ok: "dbus_register_ok g"
    using assms le
    by (cases "dbus_register_ok g")
      (auto simp: add_context_def Let_def context_dbus_register_fail pri_context_create_def)
  from assms le ok show ?thesis
    by (auto simp: add_context_def Let_def context_dbus_register_ok pri_context_create_def
        nth_append split: option.splits)
qed

lemma add_context_None:
  assumes "add_context cm name0 t g = (g1, None)"
  shows "contexts g1 = contexts g \<and> driver_calls g1 = driver_calls g
     \<and> context_drivers g1 = context_drivers g"
proof (cases "next_context_id g > l_uintset_get_max (used_pids g)")
  case True
  with assms show ?thesis by (simp add: add_context_def Let_def)
next
  case False
  show ?thesis
  proof (cases "pri_context_create name0 t")
    case None
    with assms False show ?thesis by (simp add: add_context_def Let_def)
  next
    case (Some c0)
    show ?thesis
    proof (cases "dbus_register_ok g")
      case True
      with assms False Some show ?thesis
        by (simp add: add_context_def Let_def context_dbus_register_ok split: option.splits)
    next
      case no: False
      with assms False Some show ?thesis
        by (auto simp: add_context_def Let_def context_dbus_register_fail)
    qed
  qed
qed


lemma selected_context:
  assumes "(case find_usable_context g r of
              Some i \<Rightarrow> (g, Some i)
            | None \<Rightarrow> add_context cm (Some r) OFONO_GPRS_CONTEXT_TYPE_INTERNET g) = (g1, oi)"
  shows "driver_calls g1 = driver_calls g
     \<and> (oi = Some i \<longrightarrow> i < length (contexts g1))"
proof (cases "find_usable_context g r")
  case (Some j)
  with assms have "g1 = g" "oi = Some j" by simp_all
  with find_usable_context_Some [OF Some] show ?thesis by auto
next
  case None
  with assms have a: "add_context cm (Some r) OFONO_GPRS_CONTEXT_TYPE_INTERNET g = (g1, oi)"
    by simp
  show ?thesis
  proof (cases oi)
    case none: None
    with a add_context_None [of cm "Some r" OFONO_GPRS_CONTEXT_TYPE_INTERNET g g1]
    show ?thesis by simp
  next
    case (Some k)
    with a add_context_Some [of cm "Some r" OFONO_GPRS_CONTEXT_TYPE_INTERNET g g1 k]
      add_context_fresh [of cm r OFONO_GPRS_CONTEXT_TYPE_INTERNET g g1 k]
    show ?thesis by auto
  qed
qed

lemma cid_activated_unfold:
  assumes "atom_registered g"
    and "\<not> (case used_cids g of None \<Rightarrow> False | Some s \<Rightarrow> l_uintset_contains s cid)"
    and "length r \<le> OFONO_GPRS_MAX_APN_LENGTH" and "is_valid_apn cm r"
    and "(case find_usable_context g r of
              Some i \<Rightarrow> (g, Some i)
            | None \<Rightarrow> add_context cm (Some r) OFONO_GPRS_CONTEXT_TYPE_INTERNET g) = (g1, oi)"
  shows "ofono_gprs_cid_activated cm cid r g =
     (case oi of
        None \<Rightarrow> g1
      | Some i \<Rightarrow>
          (case assign_context i cid g1 of
             None \<Rightarrow> g1
           | Some g2 \<Rightarrow>
               (case ctx_context_driver (contexts g2 ! i) of
                  None \<Rightarrow> g2
                | Some k \<Rightarrow>
                    if \<not> read_settings (gc_driver (context_drivers g2 ! k))
                    then release_context i g2
                    else (if pc_apn (ctx_context (contexts g2 ! i)) = []
                          then g2\<lparr>contexts := (contexts g2)
                                    [i := (contexts g2 ! i)
                                       \<lparr>ctx_context := (ctx_context (contexts g2 ! i))\<lparr>pc_apn := r\<rparr>\<rparr>],
                                  signals := signals g2
                                    @ [PropertyChanged (ctx_path (contexts g2 ! i)) ''AccessPointName''
                                         (DBUS_STRING r)]\<rparr>
                          else g2)
                         \<lparr>driver_calls := driver_calls g2 @ [Read_settings k cid]\<rparr>)))"
  using assms
  by (simp add: ofono_gprs_cid_activated_def Let_def split: option.splits)


lemma cid_activated_bound:
  assumes "atom_registered g"
    and "\<not> (case used_cids g of None \<Rightarrow> False | Some s \<Rightarrow> l_uintset_contains s cid)"
    and "length r \<le> OFONO_GPRS_MAX_APN_LENGTH" and "is_valid_apn cm r"
    and sel: "(case find_usable_context g r of
              Some i \<Rightarrow> (g, Some i)
            | None \<Rightarrow> add_context cm (Some r) OFONO_GPRS_CONTEXT_TYPE_INTERNET g) = (g1, Some i)"
    and asg: "assign_context i cid g1 = Some g2"
  shows "\<exists>s k. used_cids g1 = Some s
      \<and> ctx_context_driver (contexts g2 ! i) = Some k
      \<and> gc_inuse (context_drivers g2 ! k)
      \<and> pc_cid (ctx_context (contexts g2 ! i))
          = (if cid = 0 then l_uintset_find_unused_min s else cid)
      \<and> (read_settings (gc_driver (context_drivers g2 ! k)) \<longrightarrow>
            driver_calls (ofono_gprs_cid_activated cm cid r g)
              = driver_calls g @ [Read_settings k cid]
            \<and> ctx_context_driver (contexts (ofono_gprs_cid_activated cm cid r g) ! i) = Some k
            \<and> gc_inuse (context_drivers (ofono_gprs_cid_activated cm cid r g) ! k)
            \<and> pc_apn (ctx_context (contexts (ofono_gprs_cid_activated cm cid r g) ! i))
                = (if pc_apn (ctx_context (contexts g1 ! i)) = [] then r
                   else pc_apn (ctx_context (contexts g1 ! i)))
            \<and> map ctx_active (contexts (ofono_gprs_cid_activated cm cid r g))
                = map ctx_active (contexts g1))
      \<and> (\<not> read_settings (gc_driver (context_drivers g2 ! k)) \<longrightarrow>
            ofono_gprs_cid_activated cm cid r g = release_context i g2
            \<and> driver_calls (ofono_gprs_cid_activated cm cid r g) = driver_calls g
            \<and> ctx_context_driver (contexts (ofono_gprs_cid_activated cm cid r g) ! i) = None
            \<and> pc_cid (ctx_context (contexts (ofono_gprs_cid_activated cm cid r g) ! i)) = 0
            \<and> \<not> gc_inuse (context_drivers (ofono_gprs_cid_activated cm cid r g) ! k)
            \<and> map ctx_active (contexts (ofono_gprs_cid_activated cm cid r g))
                = (map ctx_active (contexts g1))[i := False])"
proof -
  let ?R = "ofono_gprs_cid_activated cm cid r g"
  from selected_context [OF sel, of i]
  have d1: "driver_calls g1 = driver_calls g" and il: "i < length (contexts g1)" by simp_all
  from assign_context_Some [OF asg il]
  obtain s k where s: "used_cids g1 = Some s"
    and kl: "k < length (context_drivers g1)"
    and c: "pc_cid (ctx_context (contexts g2 ! i))
              = (if cid = 0 then l_uintset_find_unused_min s else cid)"
    and k: "ctx_context_driver (contexts g2 ! i) = Some k"
    and apn: "pc_apn (ctx_context (contexts g2 ! i)) = pc_apn (ctx_context (contexts g1 ! i))"
    and len: "length (contexts g2) = length (contexts g1)"
    and act: "map ctx_active (contexts g2) = map ctx_active (contexts g1)"
    and dl: "length (context_drivers g2) = length (context_drivers g1)"
    and inuse: "gc_inuse (context_drivers g2 ! k)"
    and d2: "driver_calls g2 = driver_calls g1"
    by (auto simp: Let_def)
  have il2: "i < length (contexts g2)" using il len by simp
  have kl2: "k < length (context_drivers g2)" using kl dl by simp
  have R: "?R = (if \<not> read_settings (gc_driver (context_drivers g2 ! k))
                 then release_context i g2
                 else (if pc_apn (ctx_context (contexts g2 ! i)) = []
                       then g2\<lparr>contexts := (contexts g2)
                                 [i := (contexts g2 ! i)
                                    \<lparr>ctx_context := (ctx_context (contexts g2 ! i))\<lparr>pc_apn := r\<rparr>\<rparr>],
                               signals := signals g2
                                 @ [PropertyChanged (ctx_path (contexts g2 ! i)) ''AccessPointName''
                                      (DBUS_STRING r)]\<rparr>
                       else g2)
                      \<lparr>driver_calls := driver_calls g2 @ [Read_settings k cid]\<rparr>)"
    using cid_activated_unfold [OF assms(1-4) sel] asg k by simp
  have yes: "read_settings (gc_driver (context_drivers g2 ! k)) \<longrightarrow>
            driver_calls ?R = driver_calls g @ [Read_settings k cid]
            \<and> ctx_context_driver (contexts ?R ! i) = Some k
            \<and> gc_inuse (context_drivers ?R ! k)
            \<and> pc_apn (ctx_context (contexts ?R ! i))
                = (if pc_apn (ctx_context (contexts g1 ! i)) = [] then r
                   else pc_apn (ctx_context (contexts g1 ! i)))
            \<and> map ctx_active (contexts ?R) = map ctx_active (contexts g1)"
  proof
    assume rs: "read_settings (gc_driver (context_drivers g2 ! k))"
    have m: "map ctx_active ((contexts g2)
               [i := (contexts g2 ! i)
                  \<lparr>ctx_context := (ctx_context (contexts g2 ! i))\<lparr>pc_apn := r\<rparr>\<rparr>])
             = map ctx_active (contexts g2)"
      using il2 by (simp add: map_update list_update_same_conv)
    show "driver_calls ?R = driver_calls g @ [Read_settings k cid]
            \<and> ctx_context_driver (contexts ?R ! i) = Some k
            \<and> gc_inuse (context_drivers ?R ! k)
            \<and> pc_apn (ctx_context (contexts ?R ! i))
                = (if pc_apn (ctx_context (contexts g1 ! i)) = [] then r
                   else pc_apn (ctx_context (contexts g1 ! i)))
            \<and> map ctx_active (contexts ?R) = map ctx_active (contexts g1)"
      unfolding R using rs il2 k inuse apn act d1 d2 m by simp
  qed
  have no: "\<not> read_settings (gc_driver (context_drivers g2 ! k)) \<longrightarrow>
            ?R = release_context i g2
            \<and> driver_calls ?R = driver_calls g
            \<and> ctx_context_driver (contexts ?R ! i) = None
            \<and> pc_cid (ctx_context (contexts ?R ! i)) = 0
            \<and> \<not> gc_inuse (context_drivers ?R ! k)
            \<and> map ctx_active (contexts ?R) = (map ctx_active (contexts g1))[i := False]"
  proof
    assume rs: "\<not> read_settings (gc_driver (context_drivers g2 ! k))"
    have rel: "release_context i g2 =
        g2\<lparr>used_cids := map_option (\<lambda>s. l_uintset_take s (pc_cid (ctx_context (contexts g2 ! i))))
                          (used_cids g2),
           contexts := (contexts g2)
             [i := (contexts g2 ! i)\<lparr>ctx_context := (ctx_context (contexts g2 ! i))\<lparr>pc_cid := 0\<rparr>,
                     ctx_context_driver := None, ctx_active := False\<rparr>],
           context_drivers := (context_drivers g2)
             [k := (context_drivers g2 ! k)\<lparr>gc_inuse := False\<rparr>]\<rparr>"
      using k by (simp add: release_context_def Let_def)
    have RR: "?R = release_context i g2" unfolding R using rs by simp
    show "?R = release_context i g2
            \<and> driver_calls ?R = driver_calls g
            \<and> ctx_context_driver (contexts ?R ! i) = None
            \<and> pc_cid (ctx_context (contexts ?R ! i)) = 0
            \<and> \<not> gc_inuse (context_drivers ?R ! k)
            \<and> map ctx_active (contexts ?R) = (map ctx_active (contexts g1))[i := False]"
      unfolding RR rel using il2 kl2 d1 d2 act by (simp add: map_update)
  qed
  from s k inuse c yes no show ?thesis by blast
qed

text \<open>
  Claim C4, as the code has it. Take a report \<^verbatim>\<open>cid_activated(cid, apn)\<close> on a
  registered manager, with a valid APN and a cid not in \<open>used_cids\<close>, where no context
  with an empty APN stands in the list before the context the specification selects, and
  let \<open>(g1, oi)\<close> be the context the code settles on. The code selects as the
  specification says: the first context whose APN, not empty, is a prefix of the reported
  one; when there is none, the first context with an empty APN; when there is none
  either, a fresh internet-type context, which is named after the reported APN and whose
  own APN is still empty. When no context can be created, or \<^verbatim>\<open>assign_context\<close>
  fails (no cid range, cid beyond the range, no free matching binding), the report ends
  there with no driver call. When \<^verbatim>\<open>assign_context\<close> succeeds the context is bound
  with the reported cid (the minimum unused one for a reported cid of 0); then, if the
  driver implements \<^verbatim>\<open>read_settings\<close>, an empty APN of the context is set to the
  reported one and exactly \<^verbatim>\<open>read_settings(cid)\<close> is called, no context changing
  its \<open>active\<close> flag; if it does not, the context is released: unbound, cid 0,
  inactive, the binding free again, no driver call.
\<close>

theorem cid_activated_flow:
  assumes "atom_registered g"
    and "\<not> (case used_cids g of None \<Rightarrow> False | Some s \<Rightarrow> l_uintset_contains s cid)"
    and "length r \<le> OFONO_GPRS_MAX_APN_LENGTH" and "is_valid_apn cm r"
    and nostub: "\<forall>j. find_usable_context_spec g r = Some j
             \<longrightarrow> list_all (\<lambda>c. pc_apn (ctx_context c) \<noteq> []) (take j (contexts g))"
    and sel: "(case find_usable_context g r of
              Some i \<Rightarrow> (g, Some i)
            | None \<Rightarrow> add_context cm (Some r) OFONO_GPRS_CONTEXT_TYPE_INTERNET g) = (g1, oi)"
  shows "find_usable_context g r = find_usable_context_spec g r
     \<and> (find_usable_context g r = Some j \<longrightarrow>
            oi = Some j \<and> g1 = g \<and> j < length (contexts g)
            \<and> (if list_ex (\<lambda>c. pc_apn (ctx_context c) \<noteq> []
                                \<and> prefix (pc_apn (ctx_context c)) r) (contexts g)
               then pc_apn (ctx_context (contexts g ! j)) \<noteq> []
                    \<and> prefix (pc_apn (ctx_context (contexts g ! j))) r
                    \<and> list_all (\<lambda>c. \<not> (pc_apn (ctx_context c) \<noteq> []
                                       \<and> prefix (pc_apn (ctx_context c)) r))
                          (take j (contexts g))
               else pc_apn (ctx_context (contexts g ! j)) = []
                    \<and> list_all (\<lambda>c. pc_apn (ctx_context c) \<noteq> []) (take j (contexts g))))
     \<and> (find_usable_context g r = None \<longrightarrow>
            list_all (\<lambda>c. pc_apn (ctx_context c) \<noteq> [] \<and> \<not> prefix (pc_apn (ctx_context c)) r)
              (contexts g)
            \<and> (oi = Some i \<longrightarrow>
                  i = length (contexts g)
                  \<and> ctx_type (contexts g1 ! i) = OFONO_GPRS_CONTEXT_TYPE_INTERNET
                  \<and> ctx_name (contexts g1 ! i) = r
                  \<and> pc_apn (ctx_context (contexts g1 ! i)) = []
                  \<and> \<not> ctx_active (contexts g1 ! i)))
     \<and> (oi = None \<or> (oi = Some i \<and> assign_context i cid g1 = None) \<longrightarrow>
            ofono_gprs_cid_activated cm cid r g = g1 \<and> driver_calls g1 = driver_calls g)
     \<and> (oi = Some i \<and> assign_context i cid g1 = Some g2 \<longrightarrow>
          (\<exists>s k. used_cids g1 = Some s
            \<and> ctx_context_driver (contexts g2 ! i) = Some k
            \<and> gc_inuse (context_drivers g2 ! k)
            \<and> pc_cid (ctx_context (contexts g2 ! i))
                = (if cid = 0 then l_uintset_find_unused_min s else cid)
            \<and> (read_settings (gc_driver (context_drivers g2 ! k)) \<longrightarrow>
                  driver_calls (ofono_gprs_cid_activated cm cid r g)
                    = driver_calls g @ [Read_settings k cid]
                  \<and> ctx_context_driver (contexts (ofono_gprs_cid_activated cm cid r g) ! i) = Some k
                  \<and> gc_inuse (context_drivers (ofono_gprs_cid_activated cm cid r g) ! k)
                  \<and> pc_apn (ctx_context (contexts (ofono_gprs_cid_activated cm cid r g) ! i))
                      = (if pc_apn (ctx_context (contexts g1 ! i)) = [] then r
                         else pc_apn (ctx_context (contexts g1 ! i)))
                  \<and> map ctx_active (contexts (ofono_gprs_cid_activated cm cid r g))
                      = map ctx_active (contexts g1))
            \<and> (\<not> read_settings (gc_driver (context_drivers g2 ! k)) \<longrightarrow>
                  ofono_gprs_cid_activated cm cid r g = release_context i g2
                  \<and> driver_calls (ofono_gprs_cid_activated cm cid r g) = driver_calls g
                  \<and> ctx_context_driver (contexts (ofono_gprs_cid_activated cm cid r g) ! i) = None
                  \<and> pc_cid (ctx_context (contexts (ofono_gprs_cid_activated cm cid r g) ! i)) = 0
                  \<and> \<not> gc_inuse (context_drivers (ofono_gprs_cid_activated cm cid r g) ! k)
                  \<and> map ctx_active (contexts (ofono_gprs_cid_activated cm cid r g))
                      = (map ctx_active (contexts g1))[i := False])))"
proof -
  have m0: "find_usable_context g r = find_usable_context_spec g r"
    by (rule find_usable_context_as_spec [OF nostub])
  have m1: "find_usable_context g r = Some j \<longrightarrow>
            oi = Some j \<and> g1 = g \<and> j < length (contexts g)
            \<and> (if list_ex (\<lambda>c. pc_apn (ctx_context c) \<noteq> []
                                \<and> prefix (pc_apn (ctx_context c)) r) (contexts g)
               then pc_apn (ctx_context (contexts g ! j)) \<noteq> []
                    \<and> prefix (pc_apn (ctx_context (contexts g ! j))) r
                    \<and> list_all (\<lambda>c. \<not> (pc_apn (ctx_context c) \<noteq> []
                                       \<and> prefix (pc_apn (ctx_context c)) r))
                          (take j (contexts g))
               else pc_apn (ctx_context (contexts g ! j)) = []
                    \<and> list_all (\<lambda>c. pc_apn (ctx_context c) \<noteq> []) (take j (contexts g)))"
  proof
    assume f: "find_usable_context g r = Some j"
    with sel have s: "oi = Some j" "g1 = g" by simp_all
    from f m0 have "find_usable_context_spec g r = Some j" by simp
    from find_usable_context_spec_Some [OF this] s
    show "oi = Some j \<and> g1 = g \<and> j < length (contexts g)
            \<and> (if list_ex (\<lambda>c. pc_apn (ctx_context c) \<noteq> []
                                \<and> prefix (pc_apn (ctx_context c)) r) (contexts g)
               then pc_apn (ctx_context (contexts g ! j)) \<noteq> []
                    \<and> prefix (pc_apn (ctx_context (contexts g ! j))) r
                    \<and> list_all (\<lambda>c. \<not> (pc_apn (ctx_context c) \<noteq> []
                                       \<and> prefix (pc_apn (ctx_context c)) r))
                          (take j (contexts g))
               else pc_apn (ctx_context (contexts g ! j)) = []
                    \<and> list_all (\<lambda>c. pc_apn (ctx_context c) \<noteq> []) (take j (contexts g)))"
      by blast
  qed
  have m2: "find_usable_context g r = None \<longrightarrow>
            list_all (\<lambda>c. pc_apn (ctx_context c) \<noteq> [] \<and> \<not> prefix (pc_apn (ctx_context c)) r)
              (contexts g)
            \<and> (oi = Some i \<longrightarrow>
                  i = length (contexts g)
                  \<and> ctx_type (contexts g1 ! i) = OFONO_GPRS_CONTEXT_TYPE_INTERNET
                  \<and> ctx_name (contexts g1 ! i) = r
                  \<and> pc_apn (ctx_context (contexts g1 ! i)) = []
                  \<and> \<not> ctx_active (contexts g1 ! i))"
  proof
    assume f: "find_usable_context g r = None"
    with sel have a: "add_context cm (Some r) OFONO_GPRS_CONTEXT_TYPE_INTERNET g = (g1, oi)"
      by simp
    have "oi = Some i \<longrightarrow>
                  i = length (contexts g)
                  \<and> ctx_type (contexts g1 ! i) = OFONO_GPRS_CONTEXT_TYPE_INTERNET
                  \<and> ctx_name (contexts g1 ! i) = r
                  \<and> pc_apn (ctx_context (contexts g1 ! i)) = []
                  \<and> \<not> ctx_active (contexts g1 ! i)"
      using a add_context_Some [of cm "Some r" OFONO_GPRS_CONTEXT_TYPE_INTERNET g g1 i]
        add_context_fresh [of cm r OFONO_GPRS_CONTEXT_TYPE_INTERNET g g1 i]
      by simp
    with find_usable_context_None [OF f]
    show "list_all (\<lambda>c. pc_apn (ctx_context c) \<noteq> [] \<and> \<not> prefix (pc_apn (ctx_context c)) r)
              (contexts g)
            \<and> (oi = Some i \<longrightarrow>
                  i = length (contexts g)
                  \<and> ctx_type (contexts g1 ! i) = OFONO_GPRS_CONTEXT_TYPE_INTERNET
                  \<and> ctx_name (contexts g1 ! i) = r
                  \<and> pc_apn (ctx_context (contexts g1 ! i)) = []
                  \<and> \<not> ctx_active (contexts g1 ! i))"
      by simp
  qed
  have d1: "driver_calls g1 = driver_calls g"
    using selected_context [OF sel, of i] by simp
  have stop: "oi = None \<or> (oi = Some i \<and> assign_context i cid g1 = None) \<longrightarrow>
            ofono_gprs_cid_activated cm cid r g = g1 \<and> driver_calls g1 = driver_calls g"
    using cid_activated_unfold [OF assms(1-4) sel] d1 by auto
  have go: "oi = Some i \<and> assign_context i cid g1 = Some g2 \<longrightarrow>
          (\<exists>s k. used_cids g1 = Some s
            \<and> ctx_context_driver (contexts g2 ! i) = Some k
            \<and> gc_inuse (context_drivers g2 ! k)
            \<and> pc_cid (ctx_context (contexts g2 ! i))
                = (if cid = 0 then l_uintset_find_unused_min s else cid)
            \<and> (read_settings (gc_driver (context_drivers g2 ! k)) \<longrightarrow>
                  driver_calls (ofono_gprs_cid_activated cm cid r g)
                    = driver_calls g @ [Read_settings k cid]
                  \<and> ctx_context_driver (contexts (ofono_gprs_cid_activated cm cid r g) ! i) = Some k
                  \<and> gc_inuse (context_drivers (ofono_gprs_cid_activated cm cid r g) ! k)
                  \<and> pc_apn (ctx_context (contexts (ofono_gprs_cid_activated cm cid r g) ! i))
                      = (if pc_apn (ctx_context (contexts g1 ! i)) = [] then r
                         else pc_apn (ctx_context (contexts g1 ! i)))
                  \<and> map ctx_active (contexts (ofono_gprs_cid_activated cm cid r g))
                      = map ctx_active (contexts g1))
            \<and> (\<not> read_settings (gc_driver (context_drivers g2 ! k)) \<longrightarrow>
                  ofono_gprs_cid_activated cm cid r g = release_context i g2
                  \<and> driver_calls (ofono_gprs_cid_activated cm cid r g) = driver_calls g
                  \<and> ctx_context_driver (contexts (ofono_gprs_cid_activated cm cid r g) ! i) = None
                  \<and> pc_cid (ctx_context (contexts (ofono_gprs_cid_activated cm cid r g) ! i)) = 0
                  \<and> \<not> gc_inuse (context_drivers (ofono_gprs_cid_activated cm cid r g) ! k)
                  \<and> map ctx_active (contexts (ofono_gprs_cid_activated cm cid r g))
                      = (map ctx_active (contexts g1))[i := False]))"
  proof
    assume h: "oi = Some i \<and> assign_context i cid g1 = Some g2"
    then have sel': "(case find_usable_context g r of
              Some i \<Rightarrow> (g, Some i)
            | None \<Rightarrow> add_context cm (Some r) OFONO_GPRS_CONTEXT_TYPE_INTERNET g) = (g1, Some i)"
      using sel by simp
    from h have asg: "assign_context i cid g1 = Some g2" by simp
    show "\<exists>s k. used_cids g1 = Some s
            \<and> ctx_context_driver (contexts g2 ! i) = Some k
            \<and> gc_inuse (context_drivers g2 ! k)
            \<and> pc_cid (ctx_context (contexts g2 ! i))
                = (if cid = 0 then l_uintset_find_unused_min s else cid)
            \<and> (read_settings (gc_driver (context_drivers g2 ! k)) \<longrightarrow>
                  driver_calls (ofono_gprs_cid_activated cm cid r g)
                    = driver_calls g @ [Read_settings k cid]
                  \<and> ctx_context_driver (contexts (ofono_gprs_cid_activated cm cid r g) ! i) = Some k
                  \<and> gc_inuse (context_drivers (ofono_gprs_cid_activated cm cid r g) ! k)
                  \<and> pc_apn (ctx_context (contexts (ofono_gprs_cid_activated cm cid r g) ! i))
                      = (if pc_apn (ctx_context (contexts g1 ! i)) = [] then r
                         else pc_apn (ctx_context (contexts g1 ! i)))
                  \<and> map ctx_active (contexts (ofono_gprs_cid_activated cm cid r g))
                      = map ctx_active (contexts g1))
            \<and> (\<not> read_settings (gc_driver (context_drivers g2 ! k)) \<longrightarrow>
                  ofono_gprs_cid_activated cm cid r g = release_context i g2
                  \<and> driver_calls (ofono_gprs_cid_activated cm cid r g) = driver_calls g
                  \<and> ctx_context_driver (contexts (ofono_gprs_cid_activated cm cid r g) ! i) = None
                  \<and> pc_cid (ctx_context (contexts (ofono_gprs_cid_activated cm cid r g) ! i)) = 0
                  \<and> \<not> gc_inuse (context_drivers (ofono_gprs_cid_activated cm cid r g) ! k)
                  \<and> map ctx_active (contexts (ofono_gprs_cid_activated cm cid r g))
                      = (map ctx_active (contexts g1))[i := False])"
      by (rule cid_activated_bound [OF assms(1-4) sel' asg])
  qed
  from m0 m1 m2 stop go show ?thesis by (intro conjI)
qed

lemma valid_internet_apn: "is_valid_apn common_ofono ''internet.example''"
  by (simp add: common_ofono_def apn_char_ok_def is_digit_def OFONO_GPRS_MAX_APN_LENGTH_def)

text \<open>A report for cid 5 on the registered manager with one free binding: the default
  context, the first with an empty APN, is bound, takes the reported APN, and
  \<^verbatim>\<open>read_settings(5)\<close> is called.\<close>

theorem cid_activated_flow_witness:
  "atom_registered g_driver
   \<and> \<not> (case used_cids g_driver of None \<Rightarrow> False | Some s \<Rightarrow> l_uintset_contains s 5)
   \<and> length ''internet.example'' \<le> OFONO_GPRS_MAX_APN_LENGTH
   \<and> is_valid_apn common_ofono ''internet.example''
   \<and> find_usable_context_spec g_driver ''internet.example'' = Some 0
   \<and> list_all (\<lambda>c. pc_apn (ctx_context c) \<noteq> []) (take 0 (contexts g_driver))
   \<and> find_usable_context g_driver ''internet.example'' = Some 0
   \<and> (\<exists>g2. assign_context 0 5 g_driver = Some g2)
   \<and> driver_calls (ofono_gprs_cid_activated common_ofono 5 ''internet.example'' g_driver)
       = [Read_settings 0 5]
   \<and> pc_apn (ctx_context
        (contexts (ofono_gprs_cid_activated common_ofono 5 ''internet.example'' g_driver) ! 0))
       = ''internet.example''"
proof -
  have h1: "atom_registered g_driver" by (simp add: g_driver_def)
  have h2: "\<not> (case used_cids g_driver of None \<Rightarrow> False | Some s \<Rightarrow> l_uintset_contains s 5)"
    by (simp add: g_driver_fields l_uintset_contains_def)
  have h3: "length ''internet.example'' \<le> OFONO_GPRS_MAX_APN_LENGTH"
    by (simp add: OFONO_GPRS_MAX_APN_LENGTH_def)
  have fs: "find_usable_context_spec g_driver ''internet.example'' = Some 0"
    by (simp add: find_usable_context_spec_def g_driver_def g_sample_eval)
  then have ns: "\<forall>j. find_usable_context_spec g_driver ''internet.example'' = Some j
             \<longrightarrow> list_all (\<lambda>c. pc_apn (ctx_context c) \<noteq> []) (take j (contexts g_driver))"
    by simp
  have f: "find_usable_context g_driver ''internet.example'' = Some 0"
    by (simp add: find_usable_context_def g_driver_def g_sample_eval)
  then have sel: "(case find_usable_context g_driver ''internet.example'' of
              Some i \<Rightarrow> (g_driver, Some i)
            | None \<Rightarrow> add_context common_ofono (Some ''internet.example'')
                        OFONO_GPRS_CONTEXT_TYPE_INTERNET g_driver) = (g_driver, Some 0)"
    by simp
  have fa: "find_avail_gprs_context (contexts g_driver ! 0) g_driver = Some 0"
    by (simp add: find_avail_gprs_context_def g_driver_fields gc_sample_def)
  obtain g2 where a: "assign_context 0 5 g_driver = Some g2"
    by (simp add: assign_context_def Let_def g_driver_fields fa l_uintset_get_max_def)
  have k: "ctx_context_driver (contexts g2 ! 0) = Some 0"
    "read_settings (gc_driver (context_drivers g2 ! 0))"
    using assign_context_Some [OF a] fa
    by (auto simp: Let_def g_driver_fields gc_sample_def)
  have e: "pc_apn (ctx_context (contexts g_driver ! 0)) = []" "driver_calls g_driver = []"
    by (simp_all add: g_driver_def g_sample_eval gprs_create_def)
  from cid_activated_flow [OF h1 h2 h3 valid_internet_apn ns sel, of 0 0 g2] a k e
  have "driver_calls (ofono_gprs_cid_activated common_ofono 5 ''internet.example'' g_driver)
       = [Read_settings 0 5]
   \<and> pc_apn (ctx_context
        (contexts (ofono_gprs_cid_activated common_ofono 5 ''internet.example'' g_driver) ! 0))
       = ''internet.example''"
    by auto
  with h1 h2 h3 valid_internet_apn fs f a show ?thesis by simp
qed

text \<open>Claim C4 as stated fails: with a valid APN and an unused cid, but no free
  binding, the report binds nothing and calls no driver operation.\<close>

theorem cid_activated_no_binding_counterexample:
  "atom_registered g_unbound
   \<and> \<not> (case used_cids g_unbound of None \<Rightarrow> False | Some s \<Rightarrow> l_uintset_contains s 5)
   \<and> length ''internet.example'' \<le> OFONO_GPRS_MAX_APN_LENGTH
   \<and> is_valid_apn common_ofono ''internet.example''
   \<and> ofono_gprs_cid_activated common_ofono 5 ''internet.example'' g_unbound = g_unbound
   \<and> driver_calls g_unbound = []
   \<and> ctx_context_driver (contexts g_unbound ! 0) = None"
proof -
  have u: "used_cids g_unbound = Some \<lparr>umin = 1, umax = 255, members = {}\<rparr>"
    by (simp add: g_unbound_def g_sample_eval gprs_create_def l_uintset_new_from_range_def
        MAX_CONTEXTS_def)
  have f: "find_usable_context g_unbound ''internet.example'' = Some 0"
    by (simp add: find_usable_context_def g_unbound_def g_sample_eval)
  have fa: "find_avail_gprs_context (contexts g_unbound ! 0) g_unbound = None"
    by (simp add: find_avail_gprs_context_def g_unbound_def g_sample_eval gprs_create_def)
  have a: "assign_context 0 5 g_unbound = None"
    by (simp add: assign_context_def Let_def u l_uintset_get_max_def fa)
  have reg: "atom_registered g_unbound" by (simp add: g_unbound_def)
  have r: "ofono_gprs_cid_activated common_ofono 5 ''internet.example'' g_unbound = g_unbound"
    using valid_internet_apn reg
    by (simp add: ofono_gprs_cid_activated_def u l_uintset_contains_def f a
        OFONO_GPRS_MAX_APN_LENGTH_def)
  have d: "driver_calls g_unbound = []" "ctx_context_driver (contexts g_unbound ! 0) = None"
    by (simp_all add: g_unbound_def g_sample_eval gprs_create_def)
  from r d u reg valid_internet_apn show ?thesis
    by (simp add: l_uintset_contains_def OFONO_GPRS_MAX_APN_LENGTH_def)
qed

section \<open>Saving and loading a context\<close>

lemma written_keys:
  "g_key_file_get_string (write_context_settings cm kf c) (ctx_key c) ''Name'' = Some (ctx_name c)"
  "g_key_file_get_string (write_context_settings cm kf c) (ctx_key c) ''AccessPointName''
     = Some (pc_apn (ctx_context c))"
  "g_key_file_get_string (write_context_settings cm kf c) (ctx_key c) ''Username''
     = Some (pc_username (ctx_context c))"
  "g_key_file_get_string (write_context_settings cm kf c) (ctx_key c) ''Password''
     = Some (pc_password (ctx_context c))"
  "g_key_file_get_string (write_context_settings cm kf c) (ctx_key c) ''AuthenticationMethod''
     = Some (gprs_auth_method_to_string cm (pc_auth_method (ctx_context c)))"
  "g_key_file_get_string (write_context_settings cm kf c) (ctx_key c) ''Protocol''
     = Some (gprs_proto_to_string cm (pc_proto (ctx_context c)))"
  by (simp_all add: write_context_settings_def Let_def g_key_file_get_string_def
      g_key_file_set_string_def split: option.split)

lemma written_type:
  "gprs_context_type_to_string (ctx_type c) = Some s
   \<Longrightarrow> g_key_file_get_string (write_context_settings cm kf c) (ctx_key c) ''Type'' = Some s"
  by (simp add: write_context_settings_def Let_def g_key_file_get_string_def
      g_key_file_set_string_def split: option.split)

lemma written_mms:
  "ctx_type c = OFONO_GPRS_CONTEXT_TYPE_MMS
   \<Longrightarrow> g_key_file_get_string (write_context_settings cm kf c) (ctx_key c) ''MessageProxy''
         = Some (ctx_message_proxy c)
     \<and> g_key_file_get_string (write_context_settings cm kf c) (ctx_key c) ''MessageCenter''
         = Some (ctx_message_center c)"
  by (simp add: write_context_settings_def Let_def g_key_file_get_string_def
      g_key_file_set_string_def split: option.split)

lemma load_context_ia:
  assumes "ctx_type c = OFONO_GPRS_CONTEXT_TYPE_IA"
    and "settings g = Some (write_context_settings cm kf c)"
  shows "load_context cm (ctx_key c) g = (g, False)"
proof -
  have t: "g_key_file_get_string (write_context_settings cm kf c) (ctx_key c) ''Type'' = Some ''ia''"
    using assms(1) by (simp add: written_type)
  have n: "g_key_file_get_string (write_context_settings cm kf c) (ctx_key c) ''Name''
             = Some (ctx_name c)"
    by (rule written_keys)
  show ?thesis
    unfolding load_context_def Let_def
    by (simp add: assms(2) t n gprs_context_string_to_type_def split: option.split)
qed

text \<open>Loading what was saved gives the context back, on the enumerated keys, for the
  five types the parser knows.\<close>

lemma load_after_save:
  assumes ty: "ctx_type c \<in> {OFONO_GPRS_CONTEXT_TYPE_INTERNET, OFONO_GPRS_CONTEXT_TYPE_MMS,
                           OFONO_GPRS_CONTEXT_TYPE_WAP, OFONO_GPRS_CONTEXT_TYPE_IMS,
                           OFONO_GPRS_CONTEXT_TYPE_SUPL}"
    and key: "sscanf_d ''context'' (ctx_key c) = Some n" "1 \<le> n" "n \<le> int MAX_CONTEXTS"
    and u: "length (pc_username (ctx_context c)) \<le> OFONO_GPRS_MAX_USERNAME_LENGTH"
    and pw: "length (pc_password (ctx_context c)) \<le> OFONO_GPRS_MAX_PASSWORD_LENGTH"
    and apn: "pc_apn (ctx_context c) = [] \<or> is_valid_apn cm (pc_apn (ctx_context c))"
    and pr: "gprs_proto_from_string cm (gprs_proto_to_string cm (pc_proto (ctx_context c)))
               = Some (pc_proto (ctx_context c))"
    and au: "gprs_auth_method_from_string cm
               (gprs_auth_method_to_string cm (pc_auth_method (ctx_context c)))
               = Some (pc_auth_method (ctx_context c))"
    and st: "settings g = Some (write_context_settings cm kf c)"
    and ok: "dbus_register_ok g"
  shows "\<exists>g' c'. load_context cm (ctx_key c) g = (g', True)
      \<and> contexts g' = contexts g @ [c']
      \<and> ctx_name c' = ctx_name c \<and> ctx_type c' = ctx_type c
      \<and> pc_proto (ctx_context c') = pc_proto (ctx_context c)
      \<and> pc_apn (ctx_context c') = pc_apn (ctx_context c)
      \<and> pc_username (ctx_context c') = pc_username (ctx_context c)
      \<and> pc_password (ctx_context c') = pc_password (ctx_context c)
      \<and> pc_auth_method (ctx_context c') = pc_auth_method (ctx_context c)
      \<and> (ctx_type c = OFONO_GPRS_CONTEXT_TYPE_MMS \<longrightarrow>
            ctx_message_proxy c' = ctx_message_proxy c
            \<and> ctx_message_center c' = ctx_message_center c)"
proof -
  obtain s where s: "gprs_context_type_to_string (ctx_type c) = Some s"
    "gprs_context_string_to_type s = Some (ctx_type c)"
    using ty by (auto simp: gprs_context_string_to_type_def)
  have t: "g_key_file_get_string (write_context_settings cm kf c) (ctx_key c) ''Type'' = Some s"
    using s(1) by (rule written_type)
  have nr: "\<not> n < 1" "\<not> int MAX_CONTEXTS < n" using key by simp_all
  have ul: "\<not> OFONO_GPRS_MAX_USERNAME_LENGTH < length (pc_username (ctx_context c))"
    "\<not> OFONO_GPRS_MAX_PASSWORD_LENGTH < length (pc_password (ctx_context c))"
    using u pw by simp_all
  have av: "\<not> (pc_apn (ctx_context c) \<noteq> [] \<and> \<not> is_valid_apn cm (pc_apn (ctx_context c)))"
    using apn by auto
  show ?thesis
  proof (cases "ctx_type c = OFONO_GPRS_CONTEXT_TYPE_MMS")
    case True
    from written_mms [OF True, of cm kf]
    have m: "g_key_file_get_string (write_context_settings cm kf c) (ctx_key c) ''MessageProxy''
         = Some (ctx_message_proxy c)"
      "g_key_file_get_string (write_context_settings cm kf c) (ctx_key c) ''MessageCenter''
         = Some (ctx_message_center c)" by simp_all
    show ?thesis
      unfolding load_context_def Let_def
      using True nr ul av
      by (simp add: st key(1) written_keys t s(2) pr au m pri_context_create_def
          context_dbus_register_def ok)
  next
    case False
    show ?thesis
      unfolding load_context_def Let_def
      using False nr ul av
      by (simp add: st key(1) written_keys t s(2) pr au pri_context_create_def
          context_dbus_register_def ok)
  qed
qed

lemma valid_ia_apn: "is_valid_apn common_ofono ''ia.example''"
  by (simp add: common_ofono_def apn_char_ok_def is_digit_def OFONO_GPRS_MAX_APN_LENGTH_def)

lemma sscanf_context1: "sscanf_d ''context'' ''context1'' = Some 1"
  by (simp add: sscanf_d_def scan_number_def Let_def is_space_def is_digit_def digits_value_def
      strtol_def as_unsigned_int_def)

text \<open>
  Claim C5 asks that loading a saved context gives it back. For a context of type IA the
  code does not: provisioning a template of type IA creates the context and saves it
  with \<^verbatim>\<open>Type=ia\<close> under \<^verbatim>\<open>context1\<close>, and on the next start
  \<^verbatim>\<open>load_context\<close> refuses that very group and loads nothing.
\<close>

theorem ia_context_lost_on_reload:
  "(let g1 = provision_context common_ofono ap_ia_sample g_sim;
        g_next = g_sim\<lparr>settings := settings g1\<rparr>
    in map ctx_type (contexts g1) = [OFONO_GPRS_CONTEXT_TYPE_IA]
       \<and> map ctx_key (contexts g1) = [''context1'']
       \<and> (case settings g1 of
             None \<Rightarrow> None
           | Some kf \<Rightarrow> g_key_file_get_string kf ''context1'' ''Type'') = Some ''ia''
       \<and> load_context common_ofono ''context1'' g_next = (g_next, False))"
proof -
  have n: "next_context_id g_sim = 1"
    by (simp add: next_context_id_def g_sim_def gprs_create_def find_unused_min_first
        MAX_CONTEXTS_def)
  have "string_of_nat 1 = ''1''"
    by code_simp
  then have s1: "string_of_nat (Suc 0) = ''1''" by simp
  define c where "c = \<lparr>ctx_active = False, ctx_type = OFONO_GPRS_CONTEXT_TYPE_IA,
      ctx_name = ''Initial Attach'', ctx_message_proxy = [], ctx_message_center = [],
      ctx_id = 1, ctx_path = ''/modem/context1'', ctx_key = ''context1'',
      ctx_proxy_host = None, ctx_proxy_port = 0, ctx_pending = None,
      ctx_context = \<lparr>pc_cid = 0, pc_apn = ''ia.example'', pc_username = [], pc_password = [],
                      pc_proto = OFONO_GPRS_PROTO_IPV4V6,
                      pc_auth_method = OFONO_GPRS_AUTH_METHOD_NONE\<rparr>,
      ctx_context_driver = None\<rparr>"
  have g1: "provision_context common_ofono ap_ia_sample g_sim =
      g_sim\<lparr>used_pids := \<lparr>umin = 1, umax = 256, members = {1}\<rparr>,
            last_context_id := 1,
            settings := Some (write_context_settings common_ofono Map.empty c),
            contexts := [c]\<rparr>"
    unfolding provision_context_def Let_def n c_def
    by (simp add: ap_ia_sample_def valid_ia_apn too_long_def lowest_type_bit_def
        MAX_CONTEXT_NAME_LENGTH_def g_sim_def gprs_create_def l_uintset_get_max_def
        MAX_CONTEXTS_def pri_context_create_def context_dbus_register_def l_uintset_put_def s1)
  have k: "ctx_key c = ''context1''" "ctx_type c = OFONO_GPRS_CONTEXT_TYPE_IA"
    by (simp_all add: c_def)
  have ty: "g_key_file_get_string (write_context_settings common_ofono Map.empty c)
              ''context1'' ''Type'' = Some ''ia''"
    using written_type [of c "''ia''" common_ofono Map.empty] k by simp
  have l: "load_context common_ofono ''context1''
             (g_sim\<lparr>settings := Some (write_context_settings common_ofono Map.empty c)\<rparr>)
           = (g_sim\<lparr>settings := Some (write_context_settings common_ofono Map.empty c)\<rparr>, False)"
    using load_context_ia [of c "g_sim\<lparr>settings := Some (write_context_settings common_ofono Map.empty c)\<rparr>"
        common_ofono Map.empty] k
    by simp
  show ?thesis
    unfolding Let_def g1 using k ty l by simp
qed

end
